theory Spec2Isabelle
  imports Main "HOL-Library.Sublist" "HOL-Library.Char_ord" "HOL-Library.List_Lexorder"
begin

unbundle bit_operations_syntax

section \<open>Python strings\<close>

text \<open>
  A Python \<open>str\<close> is modelled as a \<open>string\<close>; a character stands for the code point
  of the same number. Exceptions are values of \<open>error\<close>, and a function that can raise
  returns \<open>error + 'a\<close> with \<open>Inl\<close> for the exception.
\<close>

datatype error =
    TypeError
  | IndexError
  | KeyError string
  | ValueError string
  | NameError string

text \<open>\<open>sub in s\<close>: the substring test.\<close>

fun contains :: "string \<Rightarrow> string \<Rightarrow> bool" where
  "contains [] sub = (sub = [])"
| "contains (c # cs) sub = (prefix sub (c # cs) \<or> contains cs sub)"

text \<open>
  \<open>s.rindex(sub)\<close>: the highest index at which \<open>sub\<close> starts in \<open>s\<close>; \<open>None\<close> stands
  for the \<open>ValueError\<close> that every caller in this module catches.
\<close>

definition rindex :: "string \<Rightarrow> string \<Rightarrow> nat option" where
  "rindex s sub =
     (case filter (\<lambda>i. prefix sub (drop i s)) (rev [0 ..< Suc (length s)]) of
        [] \<Rightarrow> None
      | i # _ \<Rightarrow> Some i)"

text \<open>\<open>s.split(sep)\<close> for a separator of one character.\<close>

fun split_on :: "char \<Rightarrow> string \<Rightarrow> string list" where
  "split_on sep [] = [[]]"
| "split_on sep (c # cs) =
     (if c = sep then [] # split_on sep cs
      else (case split_on sep cs of
              [] \<Rightarrow> [[c]]
            | p # ps \<Rightarrow> (c # p) # ps))"

definition backslash :: char where
  "backslash = CHR 0x5C"

text \<open>\<open>s.replace('\\', '/')\<close>.\<close>

definition replace_backslash :: "string \<Rightarrow> string" where
  "replace_backslash s = map (\<lambda>c. if c = backslash then CHR ''/'' else c) s"

text \<open>\<open>'%d' % n\<close>.\<close>

definition digit_char :: "nat \<Rightarrow> char" where
  "digit_char d = char_of (of_char CHR ''0'' + d)"

fun string_of_nat :: "nat \<Rightarrow> string" where
  "string_of_nat n =
     (if n < 10 then [digit_char n]
      else string_of_nat (n div 10) @ [digit_char (n mod 10)])"

definition format_d :: "int \<Rightarrow> string" where
  "format_d n = (if n < 0 then CHR ''-'' # string_of_nat (nat (- n)) else string_of_nat (nat n))"

text \<open>\<open>lit * n\<close>: a string repeated; a count below one gives the empty string.\<close>

definition str_times :: "string \<Rightarrow> int \<Rightarrow> string" where
  "str_times lit n = concat (replicate (nat n) lit)"

section \<open>Module names of source files (class \<open>_MSCOMMON\<close>)\<close>

definition modulelist_trace :: "string list" where
  "modulelist_trace = [''lib'', ''SCons'', ''test'', ''scons'']"

fun get_relative_filename :: "string \<Rightarrow> string list \<Rightarrow> string" where
  "get_relative_filename filename [] = filename"
| "get_relative_filename filename (module # module_list) =
     (if filename = [] then filename
      else (case rindex filename module of
              Some ind \<Rightarrow> drop ind filename
            | None \<Rightarrow> get_relative_filename filename module_list))"

definition get_relative_module :: "string \<Rightarrow> string list \<Rightarrow> string" where
  "get_relative_module filename module_list =
     (if filename = [] then filename
      else if hd filename = CHR ''<'' then filename
      else
        (let relname = get_relative_filename filename module_list;
             modname = (case rindex relname ''.'' of
                          Some ind \<Rightarrow> take ind relname
                        | None \<Rightarrow> relname)
         in replace_backslash modname))"

definition get_module :: "string \<Rightarrow> string" where
  "get_module filename =
     (if filename = [] then filename
      else if hd filename = CHR ''<'' then filename
      else
        (let modname = (case rindex filename ''.'' of
                          Some ind \<Rightarrow> take ind filename
                        | None \<Rightarrow> filename)
         in replace_backslash modname))"

section \<open>Frames and the trace configuration (class \<open>_MSCOMMON_TRACE\<close>)\<close>

text \<open>
  A frame carries what the tracer reads of it: the code object's name, file name and
  declared parameters (\<open>co_varnames[:co_argcount]\<close>), the current line, and the local
  bindings, each value given by its \<open>repr\<close>. The live stack is the list of frames
  reached through \<open>f_back\<close>, the current frame first; the empty list is the frame
  \<open>None\<close>.
\<close>

record frame =
  co_name :: string
  co_filename :: string
  f_lineno :: int
  co_argnames :: "string list"
  f_locals :: "(string \<times> string) list"

text \<open>The trace flags and their bits.\<close>

definition TRACE_DISPLAY_FUNCTION_ARGLIST :: int where
  "TRACE_DISPLAY_FUNCTION_ARGLIST = 1"

definition TRACE_DISPLAY_FUNCTION_LOCATION :: int where
  "TRACE_DISPLAY_FUNCTION_LOCATION = 2"

definition TRACE_DISPLAY_RETURN_VALUES :: int where
  "TRACE_DISPLAY_RETURN_VALUES = 4"

definition TRACE_DISPLAY_ALLFRAMES_ONEBELOW :: int where
  "TRACE_DISPLAY_ALLFRAMES_ONEBELOW = 8"

definition TRACE_DISPLAY_DEFAULT :: int where
  "TRACE_DISPLAY_DEFAULT =
     TRACE_DISPLAY_FUNCTION_ARGLIST OR TRACE_DISPLAY_FUNCTION_LOCATION OR TRACE_DISPLAY_RETURN_VALUES"

text \<open>
  The class attributes that are fixed when the class body runs: the resolved mask
  \<open>TRACEFLAGS\<close>, whether the debug log goes through the logging module
  (\<open>_MSCOMMON.DEBUG_LOGGING\<close>), and the parent module \<open>__name__.split('.')[-2]\<close>.
\<close>

record config =
  TRACEFLAGS :: int
  DEBUG_LOGGING :: bool
  PARENT_MODULE :: string

definition DISPLAY_FUNCTION_ARGLIST :: "config \<Rightarrow> bool" where
  "DISPLAY_FUNCTION_ARGLIST cfg = (TRACEFLAGS cfg AND TRACE_DISPLAY_FUNCTION_ARGLIST \<noteq> 0)"

definition DISPLAY_FUNCTION_LOCATION :: "config \<Rightarrow> bool" where
  "DISPLAY_FUNCTION_LOCATION cfg = (TRACEFLAGS cfg AND TRACE_DISPLAY_FUNCTION_LOCATION \<noteq> 0)"

definition DISPLAY_RETURN_VALUES :: "config \<Rightarrow> bool" where
  "DISPLAY_RETURN_VALUES cfg = (TRACEFLAGS cfg AND TRACE_DISPLAY_RETURN_VALUES \<noteq> 0)"

definition DISPLAY_ALLFRAMES_ONEBELOW :: "config \<Rightarrow> bool" where
  "DISPLAY_ALLFRAMES_ONEBELOW cfg = (TRACEFLAGS cfg AND TRACE_DISPLAY_ALLFRAMES_ONEBELOW \<noteq> 0)"

definition FRAME_CALLER_FRAMES :: int where
  "FRAME_CALLER_FRAMES = 5"

definition FRAME_ARGUMENT_VALUES :: "string list" where
  "FRAME_ARGUMENT_VALUES =
     [''version'', ''msvc_version'', ''name'', ''key'', ''path'', ''value'', ''host_arch'',
      ''target_arch'', ''vc_specific_version'', ''vc_product'', ''search_version'', ''rollback'']"

definition RETURN_IGNORELIST_ENABLED :: bool where
  "RETURN_IGNORELIST_ENABLED = True"

definition RETURN_IGNORELIST_FUNCTIONS :: "(string \<times> string) list" where
  "RETURN_IGNORELIST_FUNCTIONS =
     [(''lib/_weakrefset'', ''_remove''),
      (''lib/codecs'', ''__init__''),
      (''lib/subprocess'', ''Close''),
      (''lib/subprocess'', ''__del__''),
      (''lib/logging/__init__'', ''debug''),
      (''SCons/Environment'', ''__setitem__''),
      (''SCons/Environment'', ''PrependENVPath''),
      (''SCons/Tool/MSCommon/sdk'', ''__init__''),
      (''SCons/Tool/MSCommon/vs'', ''__init__''),
      (''SCons/Tool/MSCommon/vc'', ''__init__''),
      (''SCons/Tool/MSCommon/common'', ''debug''),
      (''SCons/Tool/MSCommon/common'', ''add_env''),
      (''SCons/Tool/MSCommon/common'', ''write_script_env_cache'')]"

definition DEBUG_IGNORELIST_ENABLED :: bool where
  "DEBUG_IGNORELIST_ENABLED = True"

definition DEBUG_IGNORELIST_FUNCTIONS :: "config \<Rightarrow> (string \<times> string) list" where
  "DEBUG_IGNORELIST_FUNCTIONS cfg =
     (if \<not> DEBUG_LOGGING cfg then [(''SCons/Tool/MSCommon/common'', ''debug'')]
      else [(''SCons/Tool/MSCommon/common'', ''get_relative_filename''),
            (''SCons/Tool/MSCommon/common'', ''filter'')])"

definition DEBUG_ALLOWLIST_ENABLED :: "config \<Rightarrow> bool" where
  "DEBUG_ALLOWLIST_ENABLED cfg = DEBUG_LOGGING cfg"

definition DEBUG_ALLOWLIST_FUNCTIONS :: "(string \<times> string) list" where
  "DEBUG_ALLOWLIST_FUNCTIONS = [(''lib/logging/__init__'', ''debug'')]"

definition FRAME_INDENT_LITERAL :: string where
  "FRAME_INDENT_LITERAL = ''  ''"

definition FRAME_TRACE_EVENTS :: "config \<Rightarrow> string list" where
  "FRAME_TRACE_EVENTS cfg =
     (if DISPLAY_RETURN_VALUES cfg then [''call'', ''return''] else [''call''])"

section \<open>The scope filter\<close>

text \<open>
  \<open>modname.split('/')[-2:]\<close>, padded in front with \<open>None\<close> when it has fewer than two
  parts: the parent and the leaf module of a module path.
\<close>

definition parent_leaf :: "string \<Rightarrow> string option \<times> string option" where
  "parent_leaf modname =
     (case rev (split_on CHR ''/'' modname) of
        leaf # parent # _ \<Rightarrow> (Some parent, Some leaf)
      | [leaf] \<Rightarrow> (None, Some leaf)
      | [] \<Rightarrow> (None, None))"

definition get_relmodule_caller_callee ::
  "frame list \<Rightarrow> string \<times> (string option \<times> string option) \<times> (string option \<times> string option)" where
  "get_relmodule_caller_callee stack =
     (let rval = (None, None) in
      case stack of
        [] \<Rightarrow> ('''', rval, rval)
      | frame # back \<Rightarrow>
          (let relmodule = get_relative_module (co_filename frame) modulelist_trace;
               callee = parent_leaf (get_module (co_filename frame))
           in case back of
                [] \<Rightarrow> (relmodule, rval, callee)
              | f_back # _ \<Rightarrow> (relmodule, parent_leaf (get_module (co_filename f_back)), callee)))"

definition is_allowed :: "config \<Rightarrow> string \<Rightarrow> string \<Rightarrow> string \<Rightarrow> bool" where
  "is_allowed cfg event relmodule function =
     (let pair = (relmodule, function) in
      if DISPLAY_ALLFRAMES_ONEBELOW cfg then True
      else if event = ''call'' \<and> DEBUG_ALLOWLIST_ENABLED cfg \<and> pair \<in> set DEBUG_ALLOWLIST_FUNCTIONS
      then True
      else False)"

text \<open>\<open>function[0]\<close> raises \<open>IndexError\<close> on the empty name.\<close>

definition is_ignored :: "config \<Rightarrow> string \<Rightarrow> string \<Rightarrow> string \<Rightarrow> error + bool" where
  "is_ignored cfg event relmodule function =
     (let pair = (relmodule, function) in
      if event = ''return'' then
        (if RETURN_IGNORELIST_ENABLED \<and> pair \<in> set RETURN_IGNORELIST_FUNCTIONS then Inr True
         else Inr False)
      else
        (if DEBUG_IGNORELIST_ENABLED \<and> pair \<in> set (DEBUG_IGNORELIST_FUNCTIONS cfg) then Inr True
         else if DISPLAY_ALLFRAMES_ONEBELOW cfg then Inr False
         else (case function of
                 [] \<Rightarrow> Inl IndexError
               | c # _ \<Rightarrow> if c = CHR ''<'' then Inr True else Inr False)))"

text \<open>
  The first part of \<open>trace_current_module\<close>, up to the walk of the stack: what the
  filter decides for an event. \<open>NotTraced\<close> and \<open>OutOfScope\<close> return the trace function
  (\<open>rval\<close>), \<open>Ignored\<close> returns \<open>None\<close>, and \<open>Accepted\<close> goes on to the reconstruction of
  the chain.
\<close>

datatype verdict = NotTraced | OutOfScope | Ignored | Accepted

definition scope_filter :: "config \<Rightarrow> frame list \<Rightarrow> string \<Rightarrow> error + verdict" where
  "scope_filter cfg stack event =
     (if event \<notin> set (FRAME_TRACE_EVENTS cfg) then Inr NotTraced
      else
        (case get_relmodule_caller_callee stack of
           (relmodule, (caller_parent, _), (callee_parent, _)) \<Rightarrow>
             (case stack of
                [] \<Rightarrow> Inr OutOfScope
              | frame # _ \<Rightarrow>
                  if callee_parent \<noteq> Some (PARENT_MODULE cfg) \<and>
                     (caller_parent \<noteq> Some (PARENT_MODULE cfg) \<or>
                      \<not> is_allowed cfg event relmodule (co_name frame))
                  then Inr OutOfScope
                  else (case is_ignored cfg event relmodule (co_name frame) of
                          Inl e \<Rightarrow> Inl e
                        | Inr True \<Rightarrow> Inr Ignored
                        | Inr False \<Rightarrow> Inr Accepted))))"

section \<open>The chain reconstructor and the renderer\<close>

text \<open>
  The mutable class attributes of the tracer, and the lines written to \<open>TRACE_FH\<close> so
  far. A step that can raise returns its outcome together with the state it leaves
  behind, since what was assigned or printed before an exception stays so.
\<close>

record trace_state =
  FRAME_ENTRY_DEPTH :: int
  FRAME_ENTRY_LOCATION :: "(string \<times> int) list"
  FRAME_ENTRY_SLOT :: int
  FRAME_LAST_CHAINLENGTH :: int
  TRACE_FH :: "string list"

definition initial_state :: trace_state where
  "initial_state =
     \<lparr>FRAME_ENTRY_DEPTH = 0, FRAME_ENTRY_LOCATION = [], FRAME_ENTRY_SLOT = - 1,
      FRAME_LAST_CHAINLENGTH = 0, TRACE_FH = []\<rparr>"

text \<open>A frame of the chain together with its \<open>f_back\<close>.\<close>

type_synonym linked_frame = "frame \<times> frame option"

definition f_back_of :: "frame list \<Rightarrow> frame option" where
  "f_back_of back = (case back of [] \<Rightarrow> None | b # _ \<Rightarrow> Some b)"

fun arglist_loop :: "frame \<Rightarrow> string list \<Rightarrow> bool \<Rightarrow> string \<Rightarrow> error + string" where
  "arglist_loop frame [] first args = Inr args"
| "arglist_loop frame (name # names) first args =
     (let args = (if first then args else args @ '', '') @ name in
      if name \<in> set FRAME_ARGUMENT_VALUES then
        (case map_of (f_locals frame) name of
           None \<Rightarrow> Inl (KeyError name)
         | Some r \<Rightarrow> arglist_loop frame names False (args @ ''='' @ r))
      else arglist_loop frame names False args)"

definition get_frame_arglist :: "frame \<Rightarrow> error + string" where
  "get_frame_arglist frame =
     (case arglist_loop frame (co_argnames frame) True ''('' of
        Inl e \<Rightarrow> Inl e
      | Inr args \<Rightarrow> Inr (args @ '')''))"

definition print_message :: "string \<Rightarrow> trace_state \<Rightarrow> trace_state" where
  "print_message message st = st\<lparr>TRACE_FH := TRACE_FH st @ [message]\<rparr>"

definition display_frame ::
  "config \<Rightarrow> linked_frame \<Rightarrow> string \<Rightarrow> bool \<Rightarrow> trace_state \<Rightarrow> (error + unit) \<times> trace_state" where
  "display_frame cfg lf indent divider st =
     (case lf of (frame, f_back) \<Rightarrow>
        (let current_func = co_name frame;
             location =
               (if DISPLAY_FUNCTION_LOCATION cfg then
                  (let current_file = get_relative_filename (co_filename frame) modulelist_trace;
                       from_where =
                         (case f_back of
                            Some b \<Rightarrow>
                              (let from_file = get_relative_filename (co_filename b) modulelist_trace;
                                   from_line = f_lineno b
                               in if co_filename b = co_filename frame
                                  then '' from '' @ format_d from_line
                                  else '' from '' @ from_file @ '':'' @ format_d from_line)
                          | None \<Rightarrow> [])
                   in '' <'' @ current_file @ '':'' @ format_d (f_lineno frame) @ from_where @ ''>'')
                else [])
         in case (if DISPLAY_FUNCTION_ARGLIST cfg then get_frame_arglist frame else Inr []) of
              Inl e \<Rightarrow> (Inl e, st)
            | Inr arglist \<Rightarrow>
                (let outstr = indent @ current_func @ arglist @ location;
                     st1 = print_message outstr st
                 in if divider \<and> FRAME_CALLER_FRAMES > 1
                    then (Inr (), print_message (indent @ str_times ''-'' (int (length outstr))) st1)
                    else (Inr (), st1))))"

definition display_frame_return ::
  "config \<Rightarrow> frame \<Rightarrow> string \<Rightarrow> string \<Rightarrow> trace_state \<Rightarrow> trace_state" where
  "display_frame_return cfg frame arg indent st =
     (let current_func = co_name frame;
          location =
            (if DISPLAY_FUNCTION_LOCATION cfg then
               (let current_file = last (split_on backslash (co_filename frame))
                in ''('' @ current_file @ '':'' @ format_d (f_lineno frame) @ '') '')
             else '' '')
      in print_message (indent @ ''return '' @ current_func @ location @ ''-> '' @ arg) st)"

text \<open>
  The walk from the current frame to the root of the stack: \<open>frame_chain\<close> grows at the
  front, and \<open>entry_slot\<close> is overwritten at every frame whose file name contains the
  parent module.
\<close>

fun walk ::
  "string \<Rightarrow> frame list \<Rightarrow> int option \<Rightarrow> linked_frame list \<Rightarrow> int option \<times> linked_frame list" where
  "walk pm [] entry_slot frame_chain = (entry_slot, frame_chain)"
| "walk pm (f # back) entry_slot frame_chain =
     walk pm back
       (if contains (co_filename f) pm then Some (int (length frame_chain)) else entry_slot)
       ((f, f_back_of back) # frame_chain)"

text \<open>\<open>xs[offset:]\<close>; a negative offset counts from the end.\<close>

definition slice_from :: "'a list \<Rightarrow> int \<Rightarrow> 'a list" where
  "slice_from xs offset =
     (if offset < 0 then drop (nat (int (length xs) + offset)) xs else drop (nat offset) xs)"

text \<open>
  The entry slot and the window: the frame chain cut to the frames from the starting
  slot to the current frame. With no entry slot, \<open>entry_slot + FRAME_CALLER_FRAMES\<close>
  adds \<open>None\<close> to a number and raises \<open>TypeError\<close>.
\<close>

definition frame_window :: "string \<Rightarrow> frame list \<Rightarrow> error + (int \<times> linked_frame list)" where
  "frame_window pm stack =
     (case walk pm stack None [] of
        (None, frame_chain) \<Rightarrow> Inl TypeError
      | (Some entry_slot, frame_chain) \<Rightarrow>
          (let top = entry_slot + FRAME_CALLER_FRAMES;
               top = (if top \<ge> int (length frame_chain) then int (length frame_chain) - 1 else top);
               offset = int (length frame_chain) - top - 1
           in Inr (entry_slot, slice_from frame_chain offset)))"

fun display_new_chain ::
  "config \<Rightarrow> int \<Rightarrow> string \<Rightarrow> linked_frame list \<Rightarrow> trace_state \<Rightarrow> (error + unit) \<times> trace_state" where
  "display_new_chain cfg i indent [] st = (Inr (), st)"
| "display_new_chain cfg i indent (f # fs) st =
     (let divider_index = FRAME_CALLER_FRAMES - 1;
          indent = (if i \<noteq> 0 then indent @ FRAME_INDENT_LITERAL else indent)
      in case display_frame cfg f indent (i = divider_index) st of
           (Inl e, st') \<Rightarrow> (Inl e, st')
         | (Inr u, st') \<Rightarrow> display_new_chain cfg (i + 1) indent fs st')"

fun display_missing ::
  "config \<Rightarrow> string \<Rightarrow> linked_frame list \<Rightarrow> trace_state \<Rightarrow> (error + unit) \<times> trace_state" where
  "display_missing cfg indent [] st = (Inr (), st)"
| "display_missing cfg indent (f # fs) st =
     (case display_frame cfg f indent False st of
        (Inl e, st') \<Rightarrow> (Inl e, st')
      | (Inr u, st') \<Rightarrow> display_missing cfg (indent @ FRAME_INDENT_LITERAL) fs st')"

text \<open>
  The second part of \<open>trace_current_module\<close>, from the walk of the stack to the
  assignment of \<open>FRAME_LAST_CHAINLENGTH\<close>. \<open>arg\<close> is \<open>repr(arg)\<close>.
\<close>

definition reconstruct ::
  "config \<Rightarrow> frame list \<Rightarrow> string \<Rightarrow> string \<Rightarrow> trace_state \<Rightarrow> (error + unit) \<times> trace_state" where
  "reconstruct cfg stack event arg st =
     (case frame_window (PARENT_MODULE cfg) stack of
        Inl e \<Rightarrow> (Inl e, st)
      | Inr (entry_slot, frame_chain) \<Rightarrow>
          (let entry_location = map (\<lambda>(f, b). (co_filename f, f_lineno f)) (take 1 frame_chain);
               start_new_chain =
                 (if FRAME_ENTRY_LOCATION st = [] then True
                  else entry_location \<noteq> FRAME_ENTRY_LOCATION st);
               shown =
                 (if start_new_chain then
                    (let st1 = (if FRAME_ENTRY_LOCATION st \<noteq> [] then print_message [] st else st)
                     in case display_new_chain cfg 0 [] frame_chain st1 of
                          (Inl e, st2) \<Rightarrow> (Inl e, st2)
                        | (Inr u, st2) \<Rightarrow>
                            (Inr (),
                             st2\<lparr>FRAME_ENTRY_SLOT := entry_slot,
                                 FRAME_ENTRY_LOCATION := entry_location,
                                 FRAME_ENTRY_DEPTH := int (length frame_chain) - 1\<rparr>))
                  else
                    (let gap = int (length frame_chain) - FRAME_LAST_CHAINLENGTH st;
                         filled =
                           (if gap > 1 then
                              (let n_indent = FRAME_ENTRY_DEPTH st + (entry_slot - FRAME_ENTRY_SLOT st - gap) + 1;
                                   indent = str_times FRAME_INDENT_LITERAL n_indent
                               in display_missing cfg indent (drop 1 (take (nat gap) frame_chain)) st)
                            else (Inr (), st))
                     in case filled of
                          (Inl e, st1) \<Rightarrow> (Inl e, st1)
                        | (Inr u, st1) \<Rightarrow>
                            (let n_indent = FRAME_ENTRY_DEPTH st + (entry_slot - FRAME_ENTRY_SLOT st);
                                 indent = str_times FRAME_INDENT_LITERAL n_indent
                             in case stack of
                                  [] \<Rightarrow> (Inl TypeError, st1)
                                | frame # back \<Rightarrow>
                                    if event = ''return''
                                    then (Inr (), display_frame_return cfg frame arg (indent @ FRAME_INDENT_LITERAL) st1)
                                    else display_frame cfg (frame, f_back_of back) indent False st1)))
           in case shown of
                (Inl e, st') \<Rightarrow> (Inl e, st')
              | (Inr u, st') \<Rightarrow> (Inr (), st'\<lparr>FRAME_LAST_CHAINLENGTH := int (length frame_chain)\<rparr>)))"

text \<open>What \<open>trace_current_module\<close> returns: itself (\<open>rval\<close>) or \<open>None\<close>.\<close>

datatype trace_result = RVal | RNone

definition trace_current_module ::
  "config \<Rightarrow> frame list \<Rightarrow> string \<Rightarrow> string \<Rightarrow> trace_state \<Rightarrow> (error + trace_result) \<times> trace_state" where
  "trace_current_module cfg stack event arg st =
     (case scope_filter cfg stack event of
        Inl e \<Rightarrow> (Inl e, st)
      | Inr NotTraced \<Rightarrow> (Inr RVal, st)
      | Inr OutOfScope \<Rightarrow> (Inr RVal, st)
      | Inr Ignored \<Rightarrow> (Inr RNone, st)
      | Inr Accepted \<Rightarrow>
          (case reconstruct cfg stack event arg st of
             (Inl e, st') \<Rightarrow> (Inl e, st')
           | (Inr u, st') \<Rightarrow> (Inr RVal, st')))"

text \<open>
  The ignore list that \<open>is_ignored\<close> consults for an event: the list of returns for a
  \<open>return\<close> event, the list of debug calls otherwise.
\<close>

definition ignore_list :: "config \<Rightarrow> string \<Rightarrow> (string \<times> string) list" where
  "ignore_list cfg event =
     (if event = ''return'' then RETURN_IGNORELIST_FUNCTIONS else DEBUG_IGNORELIST_FUNCTIONS cfg)"

text \<open>A frame of the parent module, as the walk of the stack tests it.\<close>

definition home_frame :: "string \<Rightarrow> frame \<Rightarrow> bool" where
  "home_frame pm f = contains (co_filename f) pm"

section \<open>Python integers from and to strings\<close>

text \<open>
  \<open>int(s, base)\<close> for a string, after CPython's \<open>PyLong_FromString\<close>: white space
  around the literal, an optional sign, for base 0 the prefixes \<open>0b\<close>, \<open>0o\<close> and \<open>0x\<close>
  (a literal with a leading zero and no prefix must be zero), and single underscores
  between digits. \<open>None\<close> stands for the \<open>ValueError\<close> of a string that is no literal.
  The limit on the number of digits of recent versions is left out.

  White space is what \<open>Py_ISSPACE\<close> accepts (tab to carriage return, and the space),
  and the two characters above 127 that \<open>int\<close> turns into a space before it reads the
  string. The separators \<open>0x1C\<close> to \<open>0x1F\<close>, which \<open>str.strip\<close> removes, are refused.
\<close>

definition is_space :: "char \<Rightarrow> bool" where
  "is_space c =
     (let n = (of_char c :: nat)
      in (9 \<le> n \<and> n \<le> 13) \<or> n = 32 \<or> n = 133 \<or> n = 160)"

definition digit_value :: "char \<Rightarrow> nat option" where
  "digit_value c =
     (let n = (of_char c :: nat)
      in if 48 \<le> n \<and> n \<le> 57 then Some (n - 48)
         else if 97 \<le> n \<and> n \<le> 122 then Some (n - 87)
         else if 65 \<le> n \<and> n \<le> 90 then Some (n - 55)
         else None)"

definition is_digit :: "nat \<Rightarrow> char \<Rightarrow> bool" where
  "is_digit b c = (case digit_value c of None \<Rightarrow> False | Some d \<Rightarrow> d < b)"

text \<open>
  The digits of a literal, read from the left: \<open>prev\<close> tells that the character before
  was an underscore. Two underscores in a row and an underscore at the end are refused.
\<close>

fun scan_digits :: "nat \<Rightarrow> nat \<Rightarrow> bool \<Rightarrow> string \<Rightarrow> nat option" where
  "scan_digits b acc prev [] = (if prev then None else Some acc)"
| "scan_digits b acc prev (c # cs) =
     (if c = CHR ''_'' then (if prev then None else scan_digits b acc True cs)
      else (case digit_value c of
              None \<Rightarrow> None
            | Some d \<Rightarrow> if d < b then scan_digits b (acc * b + d) False cs else None))"

definition parse_digits :: "nat \<Rightarrow> string \<Rightarrow> nat option" where
  "parse_digits b ds =
     (case ds of
        [] \<Rightarrow> None
      | c # _ \<Rightarrow> if c = CHR ''_'' then None else scan_digits b 0 False ds)"

text \<open>The base that a prefix letter after a leading zero selects.\<close>

definition prefix_base :: "char \<Rightarrow> nat option" where
  "prefix_base c =
     (if c = CHR ''x'' \<or> c = CHR ''X'' then Some 16
      else if c = CHR ''o'' \<or> c = CHR ''O'' then Some 8
      else if c = CHR ''b'' \<or> c = CHR ''B'' then Some 2
      else None)"

definition py_int :: "nat \<Rightarrow> string \<Rightarrow> int option" where
  "py_int base s =
     (let s1 = dropWhile is_space s;
          negative = (case s1 of c # _ \<Rightarrow> c = CHR ''-'' | [] \<Rightarrow> False);
          s2 = (case s1 of
                  c # r \<Rightarrow> if c = CHR ''+'' \<or> c = CHR ''-'' then r else s1
                | [] \<Rightarrow> s1);
          leading_zero = (case s2 of c # _ \<Rightarrow> c = CHR ''0'' | [] \<Rightarrow> False);
          letter = (case s2 of _ # c # _ \<Rightarrow> prefix_base c | _ \<Rightarrow> None);
          b = (if base = 0
               then (if leading_zero then (case letter of Some p \<Rightarrow> p | None \<Rightarrow> 10) else 10)
               else base);
          error_if_nonzero = (base = 0 \<and> leading_zero \<and> letter = None);
          s3 = (if leading_zero \<and> letter = Some b
                then (case drop 2 s2 of
                        c # r \<Rightarrow> if c = CHR ''_'' then r else c # r
                      | [] \<Rightarrow> [])
                else s2);
          ds = takeWhile (\<lambda>c. c = CHR ''_'' \<or> is_digit b c) s3;
          rest = dropWhile (\<lambda>c. c = CHR ''_'' \<or> is_digit b c) s3
      in case parse_digits b ds of
           None \<Rightarrow> None
         | Some v \<Rightarrow>
             if error_if_nonzero \<and> v \<noteq> 0 then None
             else if \<not> list_all is_space rest then None
             else Some (if negative then - int v else int v))"

text \<open>\<open>'%04d' % n\<close>: at least four characters, filled with zeros after the sign.\<close>

definition zfill :: "nat \<Rightarrow> string \<Rightarrow> string" where
  "zfill w s = replicate (w - length s) CHR ''0'' @ s"

definition format_04d :: "int \<Rightarrow> string" where
  "format_04d n =
     (if n < 0 then CHR ''-'' # zfill 3 (string_of_nat (nat (- n)))
      else zfill 4 (string_of_nat (nat n)))"

section \<open>The numbered log files (class \<open>_MSCOMMON\<close>)\<close>

text \<open>
  What the rotation asks of the platform: which \<open>os.path\<close> is in use (\<open>ntpath\<close>, where
  the backslash separates directories as well as the slash, or \<open>posixpath\<close>), and the
  file system's answer to \<open>glob.glob\<close>.
\<close>

record platform =
  nt :: bool
  glob :: "string \<Rightarrow> string list"

text \<open>\<open>p.rfind(c)\<close>: the last position of a character, \<open>-1\<close> when it does not occur.\<close>

definition rfind :: "string \<Rightarrow> char \<Rightarrow> int" where
  "rfind p c = (case rindex p [c] of None \<Rightarrow> - 1 | Some i \<Rightarrow> int i)"

text \<open>
  \<open>os.path.splitext\<close>: the path is cut at its last dot when that dot stands after the
  last separator and some character of the file name before it is not a dot.
\<close>

definition splitext :: "bool \<Rightarrow> string \<Rightarrow> string \<times> string" where
  "splitext is_nt p =
     (let sepIndex = (if is_nt then max (rfind p backslash) (rfind p CHR ''/'')
                      else rfind p CHR ''/'');
          dotIndex = rfind p CHR ''.''
      in if dotIndex > sepIndex \<and>
            list_ex (\<lambda>c. c \<noteq> CHR ''.'')
              (take (nat (dotIndex - (sepIndex + 1))) (drop (nat (sepIndex + 1)) p))
         then (take (nat dotIndex) p, drop (nat dotIndex) p)
         else (p, []))"

definition FILENAME_SERIALNBR :: string where
  "FILENAME_SERIALNBR = ''-#''"

text \<open>
  \<open>_get_next_serialnbr\<close>. The \<open>ValueError\<close> of \<open>int\<close> carries the text that is no number.
\<close>

definition get_next_serialnbr :: "platform \<Rightarrow> string \<Rightarrow> error + int" where
  "get_next_serialnbr pf fileglob =
     (let matches = glob pf fileglob in
      if matches = [] then Inr 1
      else
        (let matches = sort matches;
             (root, ext) = splitext (nt pf) (last matches);
             number = last (split_on (hd FILENAME_SERIALNBR) root)
         in case py_int 10 number of
              None \<Rightarrow> Inl (ValueError number)
            | Some n \<Rightarrow> Inr (n + 1)))"

text \<open>\<open>_get_filename\<close>.\<close>

definition get_filename :: "string \<Rightarrow> int \<Rightarrow> string \<Rightarrow> string" where
  "get_filename root n ext = concat [root, format_04d n, ext]"

text \<open>
  \<open>rewrite_filename\<close>, with the class attribute \<open>_last_n\<close> passed in and returned. An
  absent file name (\<open>None\<close>) is the empty string here: both are false.
\<close>

definition rewrite_filename ::
  "platform \<Rightarrow> string \<Rightarrow> bool \<Rightarrow> int option \<Rightarrow> (error + string) \<times> int option" where
  "rewrite_filename pf filename sync last_n =
     (if filename = [] then (Inr filename, last_n)
      else
        (case splitext (nt pf) filename of
           (root, ext) \<Rightarrow>
             if root = [] \<or>
                drop (length root - length FILENAME_SERIALNBR) root \<noteq> FILENAME_SERIALNBR
             then (Inr filename, last_n)
             else
               (let root = butlast root in
                case (if sync then last_n else None) of
                  Some n \<Rightarrow> (Inr (get_filename root n ext), last_n)
                | None \<Rightarrow>
                    (let fileglob = root @ ''*'' @ ext in
                     case get_next_serialnbr pf fileglob of
                       Inl e \<Rightarrow> (Inl e, last_n)
                     | Inr n \<Rightarrow>
                         (Inr (get_filename root n ext), if \<not> sync then Some n else last_n)))))"

text \<open>A marked template: a file name that \<open>rewrite_filename\<close> does not return as it is.\<close>

definition marked :: "bool \<Rightarrow> string \<Rightarrow> bool" where
  "marked is_nt filename =
     (filename \<noteq> [] \<and> fst (splitext is_nt filename) \<noteq> [] \<and>
      drop (length (fst (splitext is_nt filename)) - length FILENAME_SERIALNBR)
        (fst (splitext is_nt filename)) = FILENAME_SERIALNBR)"

text \<open>
  An example of a file system: a directory of plain file names, and patterns in which
  \<open>*\<close> is the only wildcard and matches any run of characters.
\<close>

fun star_match :: "string \<Rightarrow> string \<Rightarrow> bool" where
  "star_match [] [] = True"
| "star_match [] (c # s) = False"
| "star_match (p # ps) [] = (p = CHR ''*'' \<and> star_match ps [])"
| "star_match (p # ps) (c # s) =
     (if p = CHR ''*'' then star_match ps (c # s) \<or> star_match (p # ps) s
      else p = c \<and> star_match ps s)"

definition posix_directory :: "string list \<Rightarrow> platform" where
  "posix_directory files = \<lparr>nt = False, glob = (\<lambda>pattern. filter (star_match pattern) files)\<rparr>"

section \<open>The trace flags of the environment (class \<open>_MSCOMMON\<close>)\<close>

text \<open>
  The built-in functions \<open>compile\<close> and \<open>eval\<close> are parameters of the resolver: what
  \<open>compile(envstr, "<string>", "eval")\<close> returns (\<open>None\<close> when it raises), the
  \<open>co_names\<close> of a code object, and the value of \<open>eval\<close> of a code object in the
  symbols (\<open>None\<close> when it raises). Values that are not integers are left out.
\<close>

record 'c python =
  py_compile :: "string \<Rightarrow> 'c option"
  py_co_names :: "'c \<Rightarrow> string list"
  py_eval :: "'c \<Rightarrow> (string \<rightharpoonup> int) \<Rightarrow> int option"

definition double_quote :: char where
  "double_quote = CHR 0x22"

definition single_quote :: char where
  "single_quote = CHR 0x27"

definition startswith :: "string \<Rightarrow> string \<Rightarrow> bool" where
  "startswith s p = prefix p s"

definition endswith :: "string \<Rightarrow> string \<Rightarrow> bool" where
  "endswith s p = suffix p s"

text \<open>\<open>s.strip(chars)\<close>: the characters of \<open>chars\<close> are removed at both ends.\<close>

definition strip :: "string \<Rightarrow> string \<Rightarrow> string" where
  "strip chars s =
     rev (dropWhile (\<lambda>c. c \<in> set chars) (rev (dropWhile (\<lambda>c. c \<in> set chars) s)))"

text \<open>
  The branch that one round of the loop over balanced outer quotes takes: the argument
  of \<open>strip\<close>, or \<open>None\<close> for the \<open>break\<close>.
\<close>

definition balanced_quotes :: "string \<Rightarrow> string option" where
  "balanced_quotes envstr =
     (if startswith envstr [double_quote] \<and> endswith envstr [double_quote]
      then Some [double_quote]
      else if startswith envstr [single_quote] \<and> endswith envstr [single_quote]
      then Some [single_quote]
      else if startswith envstr (replicate 3 double_quote) \<and>
              endswith envstr (replicate 3 double_quote)
      then Some (replicate 3 double_quote)
      else None)"

text \<open>
  The loop: \<open>None\<close> when the string becomes empty (the default is used), otherwise the
  string at the \<open>break\<close>.
\<close>

function strip_loop :: "string \<Rightarrow> string option" where
  "strip_loop envstr =
     (case balanced_quotes envstr of
        None \<Rightarrow> Some envstr
      | Some q \<Rightarrow> if strip q envstr = [] then None else strip_loop (strip q envstr))"
  by pat_completeness auto
termination
proof (relation "measure length")
  show "wf (measure length)" by simp
next
  fix envstr q
  assume b: "balanced_quotes envstr = Some q" and "strip q envstr \<noteq> []"
  from b have "prefix q envstr \<and> q \<noteq> []"
    by (auto simp: balanced_quotes_def startswith_def numeral_3_eq_3 split: if_splits)
  then obtain c r where s: "envstr = c # r" and c: "c \<in> set q"
    by (cases q; cases envstr) auto
  have "length (strip q envstr) \<le> length (dropWhile (\<lambda>c. c \<in> set q) envstr)"
    unfolding strip_def
    by (metis length_dropWhile_le length_rev)
  also have "\<dots> \<le> length r"
    using s c by (simp add: length_dropWhile_le)
  finally show "(strip q envstr, envstr) \<in> measure length"
    using s by simp
qed

declare strip_loop.simps [simp del]

definition TRACE_DISPLAY_SYMBOLS :: "(string \<times> int) list" where
  "TRACE_DISPLAY_SYMBOLS =
     [(''TRACE_DISPLAY_FUNCTION_ARGLIST'', TRACE_DISPLAY_FUNCTION_ARGLIST),
      (''TRACE_DISPLAY_FUNCTION_LOCATION'', TRACE_DISPLAY_FUNCTION_LOCATION),
      (''TRACE_DISPLAY_RETURN_VALUES'', TRACE_DISPLAY_RETURN_VALUES),
      (''TRACE_DISPLAY_ALLFRAMES_ONEBELOW'', TRACE_DISPLAY_ALLFRAMES_ONEBELOW)]"

text \<open>The dictionary \<open>symbols\<close>: the long names and the names without the prefix.\<close>

definition symbols :: "string \<rightharpoonup> int" where
  "symbols =
     fold (\<lambda>(key, v) m.
             if startswith key ''TRACE_DISPLAY_''
             then (m(key \<mapsto> v))(drop (length ''TRACE_DISPLAY_'') key \<mapsto> v)
             else m(key \<mapsto> v))
       TRACE_DISPLAY_SYMBOLS Map.empty"

text \<open>
  \<open>get_trace_display_traceflags\<close>, with the environment variable
  \<open>SCONS_MSCOMMON_TRACEFLAGS\<close> (\<open>None\<close> when it is not set) and the class attribute
  \<open>_TRACEFLAGS\<close> passed in; the attribute is returned with the result.
\<close>

definition get_trace_display_traceflags ::
  "'c python \<Rightarrow> string option \<Rightarrow> int option \<Rightarrow> (error + int) \<times> int option" where
  "get_trace_display_traceflags py TRACEFLAGS_ENV cached =
     (case cached of
        Some v \<Rightarrow> (Inr v, cached)
      | None \<Rightarrow>
          (case TRACEFLAGS_ENV of
             None \<Rightarrow> (Inr TRACE_DISPLAY_DEFAULT, Some TRACE_DISPLAY_DEFAULT)
           | Some raw \<Rightarrow>
               (case strip_loop raw of
                  None \<Rightarrow> (Inr TRACE_DISPLAY_DEFAULT, Some TRACE_DISPLAY_DEFAULT)
                | Some envstr \<Rightarrow>
                    (case py_int 0 envstr of
                       Some v \<Rightarrow> (Inr v, Some v)
                     | None \<Rightarrow>
                         (case py_compile py envstr of
                            None \<Rightarrow>
                              (Inl (ValueError (''Trace display compilation failed: '' @ raw)), None)
                          | Some code \<Rightarrow>
                              (case find (\<lambda>name. symbols name = None) (py_co_names py code) of
                                 Some name \<Rightarrow>
                                   (Inl (NameError (''Undefined trace display symbol: '' @ name)),
                                    None)
                               | None \<Rightarrow>
                                   (case py_eval py code symbols of
                                      None \<Rightarrow>
                                        (Inl (ValueError
                                               (''Trace display evaluation failed: '' @ raw)), None)
                                    | Some v \<Rightarrow> (Inr v, Some v))))))))"

section \<open>A fragment of Python's expressions\<close>

text \<open>
  An instance of the built-in functions for the expressions that the comments of the
  module give as examples: integer literals and names, joined by \<open>|\<close>, \<open>^\<close>, \<open>&\<close>,
  \<open><<\<close>, \<open>>>\<close> and \<open>+\<close>, with Python's precedence and no white space. On these strings,
  and on strings that are no Python expression at all, it is what \<open>compile\<close> and
  \<open>eval\<close> do; other expressions of Python (calls, parentheses, keywords, other
  operators) are outside of it and are not used below.
\<close>

datatype binop = BitOr | BitXor | BitAnd | LShift | RShift | Add

datatype expr = Num int | Name string | BinOp binop expr expr

datatype token = TNum int | TName string | TOp binop | TBad

definition is_ident_char :: "char \<Rightarrow> bool" where
  "is_ident_char c = (c = CHR ''_'' \<or> is_digit 36 c)"

definition python_keywords :: "string list" where
  "python_keywords =
     [''False'', ''None'', ''True'', ''and'', ''as'', ''assert'', ''async'', ''await'',
      ''break'', ''class'', ''continue'', ''def'', ''del'', ''elif'', ''else'', ''except'',
      ''finally'', ''for'', ''from'', ''global'', ''if'', ''import'', ''in'', ''is'',
      ''lambda'', ''nonlocal'', ''not'', ''or'', ''pass'', ''raise'', ''return'', ''try'',
      ''while'', ''with'', ''yield'', ''__debug__'']"

text \<open>The token of a run of letters, digits and underscores.\<close>

definition word_token :: "string \<Rightarrow> token list" where
  "word_token run =
     (case run of
        [] \<Rightarrow> []
      | c # _ \<Rightarrow>
          if is_digit 10 c then (case py_int 0 run of Some n \<Rightarrow> [TNum n] | None \<Rightarrow> [TBad])
          else if run \<in> set python_keywords then [TBad]
          else [TName run])"

definition operator1 :: "char \<Rightarrow> binop option" where
  "operator1 c =
     (if c = CHR ''|'' then Some BitOr
      else if c = CHR ''^'' then Some BitXor
      else if c = CHR ''&'' then Some BitAnd
      else if c = CHR ''+'' then Some Add
      else None)"

fun lex :: "string \<Rightarrow> string \<Rightarrow> token list" where
  "lex run [] = word_token run"
| "lex run (c # cs) =
     (if is_ident_char c then lex (run @ [c]) cs
      else word_token run @
        (case operator1 c of
           Some b \<Rightarrow> TOp b # lex [] cs
         | None \<Rightarrow>
             (case cs of
                [] \<Rightarrow> [TBad]
              | d # ds \<Rightarrow>
                  if c = CHR ''<'' \<and> d = CHR ''<'' then TOp LShift # lex [] ds
                  else if c = CHR ''>'' \<and> d = CHR ''>'' then TOp RShift # lex [] ds
                  else TBad # lex [] cs)))"

text \<open>The operands and operators of one level of precedence.\<close>

fun chunks :: "binop list \<Rightarrow> token list \<Rightarrow> token list \<times> (binop \<times> token list) list" where
  "chunks ops [] = ([], [])"
| "chunks ops (t # ts) =
     (case chunks ops ts of
        (c, rest) \<Rightarrow>
          (case t of
             TOp b \<Rightarrow> if b \<in> set ops then ([], (b, c) # rest) else (t # c, rest)
           | _ \<Rightarrow> (t # c, rest)))"

fun join_left ::
  "(token list \<Rightarrow> expr option) \<Rightarrow> expr \<Rightarrow> (binop \<times> token list) list \<Rightarrow> expr option" where
  "join_left sub l [] = Some l"
| "join_left sub l ((b, c) # rest) =
     (case sub c of
        None \<Rightarrow> None
      | Some r \<Rightarrow> join_left sub (BinOp b l r) rest)"

definition level :: "binop list \<Rightarrow> (token list \<Rightarrow> expr option) \<Rightarrow> token list \<Rightarrow> expr option" where
  "level ops sub ts =
     (case chunks ops ts of
        (c, rest) \<Rightarrow> (case sub c of None \<Rightarrow> None | Some l \<Rightarrow> join_left sub l rest))"

definition atom :: "token list \<Rightarrow> expr option" where
  "atom ts =
     (case ts of
        [TNum n] \<Rightarrow> Some (Num n)
      | [TName x] \<Rightarrow> Some (Name x)
      | _ \<Rightarrow> None)"

definition parse_expr :: "string \<Rightarrow> expr option" where
  "parse_expr s =
     level [BitOr] (level [BitXor] (level [BitAnd] (level [LShift, RShift] (level [Add] atom))))
       (lex [] s)"

fun names_of :: "expr \<Rightarrow> string list" where
  "names_of (Num n) = []"
| "names_of (Name x) = [x]"
| "names_of (BinOp b l r) = names_of l @ names_of r"

text \<open>\<open>co_names\<close>: every name once, in the order of its first use.\<close>

definition co_names_of :: "expr \<Rightarrow> string list" where
  "co_names_of e = rev (remdups (rev (names_of e)))"

definition apply_binop :: "binop \<Rightarrow> int \<Rightarrow> int \<Rightarrow> int option" where
  "apply_binop b x y =
     (case b of
        BitOr \<Rightarrow> Some (x OR y)
      | BitXor \<Rightarrow> Some (x XOR y)
      | BitAnd \<Rightarrow> Some (x AND y)
      | LShift \<Rightarrow> if y < 0 then None else Some (push_bit (nat y) x)
      | RShift \<Rightarrow> if y < 0 then None else Some (drop_bit (nat y) x)
      | Add \<Rightarrow> Some (x + y))"

fun eval_expr :: "(string \<rightharpoonup> int) \<Rightarrow> expr \<Rightarrow> int option" where
  "eval_expr env (Num n) = Some n"
| "eval_expr env (Name x) = env x"
| "eval_expr env (BinOp b l r) =
     (case eval_expr env l of
        None \<Rightarrow> None
      | Some x \<Rightarrow> (case eval_expr env r of None \<Rightarrow> None | Some y \<Rightarrow> apply_binop b x y))"

definition python_fragment :: "expr python" where
  "python_fragment =
     \<lparr>py_compile = parse_expr, py_co_names = co_names_of,
      py_eval = (\<lambda>code env. eval_expr env code)\<rparr>"

section \<open>A lambda in front of an expression\<close>



section \<open>Example events\<close>

definition example_frame :: "string \<Rightarrow> string \<Rightarrow> int \<Rightarrow> frame" where
  "example_frame name filename line =
     \<lparr>co_name = name, co_filename = filename, f_lineno = line, co_argnames = [], f_locals = []\<rparr>"

text \<open>All four flags set, debug output not through the logging module.\<close>

definition cfg_allframes :: config where
  "cfg_allframes = \<lparr>TRACEFLAGS = 15, DEBUG_LOGGING = False, PARENT_MODULE = ''MSCommon''\<rparr>"

text \<open>Function locations, return values and all frames, no argument lists.\<close>

definition cfg_locations :: config where
  "cfg_locations = \<lparr>TRACEFLAGS = 14, DEBUG_LOGGING = False, PARENT_MODULE = ''MSCommon''\<rparr>"

text \<open>
  A call two frames below the parent module: \<open>find\<close> in \<open>MSCommon/vc.py\<close> calls
  \<open>getpass\<close>, which calls \<open>join\<close>.
\<close>

definition stack_two_below :: "frame list" where
  "stack_two_below =
     [example_frame ''join'' ''/usr/lib/python3/posixpath.py'' 71,
      example_frame ''getpass'' ''/usr/lib/python3/getpass.py'' 10,
      example_frame ''find'' ''/src/SCons/Tool/MSCommon/vc.py'' 5]"

text \<open>The same stack one call earlier: \<open>getpass\<close> is called from the parent module.\<close>

definition stack_one_below :: "frame list" where
  "stack_one_below =
     [example_frame ''getpass'' ''/usr/lib/python3/getpass.py'' 10,
      example_frame ''find'' ''/src/SCons/Tool/MSCommon/vc.py'' 5]"

text \<open>
  Nested calls inside the parent module: \<open>a\<close> calls \<open>b\<close> calls \<open>c\<close>, all in
  \<open>MSCommon/vc.py\<close>, below six frames of the build.
\<close>

definition stack_nested :: "frame list" where
  "stack_nested =
     [example_frame ''c'' ''/src/SCons/Tool/MSCommon/vc.py'' 30,
      example_frame ''b'' ''/src/SCons/Tool/MSCommon/vc.py'' 20,
      example_frame ''a'' ''/src/SCons/Tool/MSCommon/vc.py'' 10,
      example_frame ''generate'' ''/src/SCons/Tool/msvc.py'' 4,
      example_frame ''Tool'' ''/src/SCons/Tool/__init__.py'' 5,
      example_frame ''Environment'' ''/src/SCons/Environment.py'' 6,
      example_frame ''<module>'' ''/work/SConstruct'' 1,
      example_frame ''_exec'' ''/src/SCons/Script/SConscript.py'' 7,
      example_frame ''main'' ''/src/SCons/Script/Main.py'' 8]"

text \<open>A call of the module's own \<open>debug\<close>, which is on the ignore list of calls.\<close>

definition stack_debug :: "frame list" where
  "stack_debug =
     [example_frame ''debug'' ''/src/SCons/Tool/MSCommon/common.py'' 293,
      example_frame ''find'' ''/src/SCons/Tool/MSCommon/vc.py'' 5]"

section \<open>Properties of the scope filter and of the walk\<close>

lemma contains_iff_sublist: "contains s sub \<longleftrightarrow> sublist sub s"
  by (induction s) (auto simp: sublist_Cons_right)

lemma split_on_parts:
  "split_on sep s = q # qs \<Longrightarrow>
     prefix q s \<and> sep \<notin> set q \<and> (\<forall>p \<in> set qs. sep \<notin> set p \<and> sublist p s)"
proof (induction s arbitrary: q qs)
  case Nil
  then show ?case by simp
next
  case (Cons c cs)
  show ?case
  proof (cases "c = sep")
    case True
    with Cons.prems have q: "q = []" and qs: "qs = split_on sep cs" by simp_all
    obtain r rs where r: "split_on sep cs = r # rs"
      by (cases "split_on sep cs") (auto split: if_splits list.splits elim: split_on.elims)
    from Cons.IH [OF r] have "\<forall>p \<in> set (r # rs). sep \<notin> set p \<and> sublist p cs"
      by auto
    then show ?thesis using q qs r by (auto intro: sublist_Cons_right [THEN iffD2])
  next
    case False
    obtain r rs where r: "split_on sep cs = r # rs"
      by (cases "split_on sep cs") (auto split: if_splits list.splits elim: split_on.elims)
    with False Cons.prems have q: "q = c # r" and qs: "qs = rs" by simp_all
    from Cons.IH [OF r] show ?thesis using q qs False
      by (auto intro: sublist_Cons_right [THEN iffD2])
  qed
qed

lemma split_on_member:
  assumes "p \<in> set (split_on sep s)"
  shows "sep \<notin> set p \<and> sublist p s"
proof -
  obtain q qs where q: "split_on sep s = q # qs"
    using assms by (cases "split_on sep s") auto
  from split_on_parts [OF q] assms q show ?thesis
    by (auto intro: prefix_imp_sublist)
qed

lemma parent_leaf_sublist:
  assumes "parent_leaf m = (Some p, l)"
  shows "CHR ''/'' \<notin> set p \<and> sublist p m"
proof -
  from assms have "p \<in> set (rev (split_on CHR ''/'' m))"
    by (auto simp: parent_leaf_def split: list.splits)
  then have "p \<in> set (split_on CHR ''/'' m)" by simp
  then show ?thesis by (rule split_on_member)
qed

lemma sublist_replace_backslash:
  assumes "sublist p (replace_backslash x)" and "CHR ''/'' \<notin> set p"
  shows "sublist p x"
proof -
  let ?f = "\<lambda>c. if c = backslash then CHR ''/'' else c"
  from assms(1) obtain a b where e: "map ?f x = a @ p @ b"
    by (auto simp: sublist_def replace_backslash_def)
  define p' where "p' = take (length p) (drop (length a) x)"
  have "map ?f p' = take (length p) (drop (length a) (map ?f x))"
    by (simp add: p'_def take_map drop_map)
  then have p': "map ?f p' = p" by (simp add: e)
  have x: "x = take (length a) x @ p' @ drop (length p) (drop (length a) x)"
    by (simp only: p'_def append_take_drop_id)
  have "\<forall>c \<in> set p'. ?f c = c"
  proof
    fix c assume c: "c \<in> set p'"
    then have "?f c \<in> set p" using p' by force
    with assms(2) have "?f c \<noteq> CHR ''/''" by metis
    then show "?f c = c" by (auto split: if_splits)
  qed
  then have "map ?f p' = p'" by (simp add: map_idI)
  with p' have "p' = p" by simp
  with x show ?thesis unfolding sublist_def by blast
qed

lemma get_module_sublist:
  assumes "sublist p (get_module fn)" and "CHR ''/'' \<notin> set p"
  shows "sublist p fn"
proof -
  have t: "sublist p (take n fn) \<Longrightarrow> sublist p fn" for n
  proof -
    assume "sublist p (take n fn)"
    then obtain a b where "take n fn = a @ p @ b" by (auto simp: sublist_def)
    then have "fn = a @ p @ (b @ drop n fn)" by (metis append.assoc append_take_drop_id)
    then show ?thesis unfolding sublist_def by blast
  qed
  from assms show ?thesis
    by (auto simp: get_module_def Let_def split: if_splits option.splits
        dest!: sublist_replace_backslash intro: t)
qed

lemma parent_is_home:
  "parent_leaf (get_module (co_filename f)) = (Some pm, l) \<Longrightarrow> home_frame pm f"
  using parent_leaf_sublist [of "get_module (co_filename f)" pm l] get_module_sublist
  by (auto simp: home_frame_def contains_iff_sublist)

lemma accepted_home:
  assumes "scope_filter cfg stack event = Inr Accepted"
  shows "\<exists>f \<in> set stack. home_frame (PARENT_MODULE cfg) f"
proof (cases stack)
  case Nil
  with assms show ?thesis
    by (simp add: scope_filter_def get_relmodule_caller_callee_def split: if_splits)
next
  case (Cons frame callers)
  show ?thesis
  proof (cases callers)
    case Nil
    with Cons assms have "fst (parent_leaf (get_module (co_filename frame))) = Some (PARENT_MODULE cfg)"
      by (auto simp: scope_filter_def get_relmodule_caller_callee_def Let_def split: if_splits prod.splits)
    then have "home_frame (PARENT_MODULE cfg) frame"
      by (metis parent_is_home prod.collapse)
    with Cons show ?thesis by simp
  next
    case c2: (Cons f_back rest)
    with Cons assms have
      "fst (parent_leaf (get_module (co_filename frame))) = Some (PARENT_MODULE cfg) \<or>
       fst (parent_leaf (get_module (co_filename f_back))) = Some (PARENT_MODULE cfg)"
      by (auto simp: scope_filter_def get_relmodule_caller_callee_def Let_def split: if_splits prod.splits)
    then have "home_frame (PARENT_MODULE cfg) frame \<or> home_frame (PARENT_MODULE cfg) f_back"
      by (metis parent_is_home prod.collapse)
    with Cons c2 show ?thesis by auto
  qed
qed

lemma walk_chain_length: "length (snd (walk pm fs s c)) = length fs + length c"
  by (induction fs arbitrary: s c) auto

lemma walk_no_home: "\<forall>f \<in> set fs. \<not> home_frame pm f \<Longrightarrow> fst (walk pm fs s c) = s"
  by (induction fs arbitrary: s c) (auto simp: home_frame_def)

lemma walk_slot:
  assumes "\<exists>f \<in> set fs. home_frame pm f"
  shows "\<exists>i < length fs. fst (walk pm fs s c) = Some (int (length c) + int i) \<and>
           home_frame pm (fs ! i) \<and> (\<forall>j. i < j \<and> j < length fs \<longrightarrow> \<not> home_frame pm (fs ! j))"
  using assms
proof (induction fs arbitrary: s c)
  case Nil
  then show ?case by simp
next
  case (Cons f fs)
  let ?s = "if contains (co_filename f) pm then Some (int (length c)) else s"
  let ?c = "(f, f_back_of fs) # c"
  show ?case
  proof (cases "\<exists>g \<in> set fs. home_frame pm g")
    case True
    from Cons.IH [OF True, of ?s ?c] obtain i where
      i: "i < length fs" "fst (walk pm fs ?s ?c) = Some (int (length ?c) + int i)"
         "home_frame pm (fs ! i)" "\<forall>j. i < j \<and> j < length fs \<longrightarrow> \<not> home_frame pm (fs ! j)"
      by blast
    have "\<forall>j. Suc i < j \<and> j < length (f # fs) \<longrightarrow> \<not> home_frame pm ((f # fs) ! j)"
    proof (intro allI impI)
      fix j assume j: "Suc i < j \<and> j < length (f # fs)"
      then obtain j' where "j = Suc j'" by (cases j) auto
      with j i(4) show "\<not> home_frame pm ((f # fs) ! j)" by simp
    qed
    with i show ?thesis
      by (intro exI [of _ "Suc i"]) simp
  next
    case False
    with Cons.prems have h: "home_frame pm f" by simp
    from False have "fst (walk pm fs ?s ?c) = ?s" by (intro walk_no_home) simp
    with h have w: "fst (walk pm (f # fs) s c) = Some (int (length c) + int 0)"
      by (simp add: home_frame_def)
    have "\<forall>j. 0 < j \<and> j < length (f # fs) \<longrightarrow> \<not> home_frame pm ((f # fs) ! j)"
    proof (intro allI impI)
      fix j assume j: "0 < j \<and> j < length (f # fs)"
      then obtain j' where "j = Suc j'" by (cases j) auto
      with j False show "\<not> home_frame pm ((f # fs) ! j)" by simp
    qed
    with w h show ?thesis
      by (intro exI [of _ 0]) simp
  qed
qed

lemma frame_window_found:
  assumes "\<exists>f \<in> set stack. home_frame pm f"
  shows "\<exists>i < length stack.
           frame_window pm stack =
             Inr (int i, drop (length stack - min (i + 6) (length stack)) (snd (walk pm stack None []))) \<and>
           home_frame pm (stack ! i) \<and>
           (\<forall>j. i < j \<and> j < length stack \<longrightarrow> \<not> home_frame pm (stack ! j))"
proof -
  from walk_slot [OF assms, of None "[]"] obtain i where
    i: "i < length stack" "fst (walk pm stack None []) = Some (int i)"
       "home_frame pm (stack ! i)" "\<forall>j. i < j \<and> j < length stack \<longrightarrow> \<not> home_frame pm (stack ! j)"
    by auto
  obtain ch where w: "walk pm stack None [] = (Some (int i), ch)"
    using i(2) by (cases "walk pm stack None []") auto
  have l: "length ch = length stack"
    using walk_chain_length [of pm stack None "[]"] w by simp
  have "frame_window pm stack = Inr (int i, drop (length stack - min (i + 6) (length stack)) ch)"
    using i(1) l
    by (auto simp: frame_window_def w Let_def slice_from_def FRAME_CALLER_FRAMES_def
        intro!: arg_cong2 [where f = drop])
  with i w show ?thesis by auto
qed

lemma relmodule_of_stack:
  "fst (get_relmodule_caller_callee (frame # callers)) =
     get_relative_module (co_filename frame) modulelist_trace"
  by (simp add: get_relmodule_caller_callee_def Let_def split: list.splits)

lemma is_ignored_listed:
  "(relmodule, function) \<in> set (ignore_list cfg event) \<Longrightarrow>
     is_ignored cfg event relmodule function = Inr True"
  by (simp add: is_ignored_def ignore_list_def RETURN_IGNORELIST_ENABLED_def
      DEBUG_IGNORELIST_ENABLED_def split: if_splits)

lemma is_ignored_allframes:
  "DISPLAY_ALLFRAMES_ONEBELOW cfg \<Longrightarrow> (relmodule, function) \<notin> set (ignore_list cfg event) \<Longrightarrow>
     is_ignored cfg event relmodule function = Inr False"
  by (simp add: is_ignored_def ignore_list_def split: if_splits)


section \<open>Properties of the renderer and of the reconstruction\<close>

lemma arglist_loop_error:
  "arglist_loop frame names first args = Inl e \<Longrightarrow> \<exists>n. e = KeyError n"
  by (induction frame names first args rule: arglist_loop.induct)
     (auto simp: Let_def split: if_splits option.splits)

lemma get_frame_arglist_error:
  "get_frame_arglist frame = Inl e \<Longrightarrow> \<exists>n. e = KeyError n"
  by (auto simp: get_frame_arglist_def split: sum.splits dest: arglist_loop_error)

lemma display_frame_error:
  "display_frame cfg lf indent d st = (Inl e, st') \<Longrightarrow> \<exists>n. e = KeyError n"
  by (cases lf)
     (auto simp: display_frame_def Let_def split: sum.splits if_splits dest: get_frame_arglist_error)

lemma display_frame_slot:
  "display_frame cfg lf indent d st = (r, st') \<Longrightarrow>
     FRAME_ENTRY_SLOT st' = FRAME_ENTRY_SLOT st \<and>
     FRAME_ENTRY_LOCATION st' = FRAME_ENTRY_LOCATION st \<and>
     FRAME_ENTRY_DEPTH st' = FRAME_ENTRY_DEPTH st \<and>
     FRAME_LAST_CHAINLENGTH st' = FRAME_LAST_CHAINLENGTH st"
  by (cases lf)
     (auto simp: display_frame_def Let_def print_message_def split: sum.splits if_splits)

lemma display_new_chain_error:
  "display_new_chain cfg i indent fs st = (Inl e, st') \<Longrightarrow> \<exists>n. e = KeyError n"
proof (induction cfg i indent fs st rule: display_new_chain.induct)
  case (1 cfg i indent st)
  then show ?case by simp
next
  case (2 cfg i indent f fs st)
  then show ?case
    by (auto simp: Let_def split: prod.splits sum.splits dest: display_frame_error)
qed

lemma display_new_chain_slot:
  "display_new_chain cfg i indent fs st = (r, st') \<Longrightarrow>
     FRAME_ENTRY_SLOT st' = FRAME_ENTRY_SLOT st"
proof (induction cfg i indent fs st rule: display_new_chain.induct)
  case (1 cfg i indent st)
  then show ?case by simp
next
  case (2 cfg i indent f fs st)
  then show ?case
    by (auto simp: Let_def split: prod.splits sum.splits dest: display_frame_slot)
qed

lemma display_missing_error:
  "display_missing cfg indent fs st = (Inl e, st') \<Longrightarrow> \<exists>n. e = KeyError n"
proof (induction cfg indent fs st rule: display_missing.induct)
  case (1 cfg indent st)
  then show ?case by simp
next
  case (2 cfg indent f fs st)
  then show ?case
    by (auto split: prod.splits sum.splits dest: display_frame_error)
qed

lemma display_missing_slot:
  "display_missing cfg indent fs st = (r, st') \<Longrightarrow>
     FRAME_ENTRY_SLOT st' = FRAME_ENTRY_SLOT st"
proof (induction cfg indent fs st rule: display_missing.induct)
  case (1 cfg indent st)
  then show ?case by simp
next
  case (2 cfg indent f fs st)
  then show ?case
    by (auto split: prod.splits sum.splits dest: display_frame_slot)
qed

lemma reconstruct_chainlength:
  assumes "frame_window (PARENT_MODULE cfg) stack = Inr (slot, ch)"
    and "reconstruct cfg stack event arg st = (Inr u, st')"
  shows "FRAME_LAST_CHAINLENGTH st' = int (length ch)"
  using assms(2)
  by (auto simp: reconstruct_def assms(1) Let_def split: prod.splits sum.splits if_splits)

lemma reconstruct_error:
  assumes "frame_window (PARENT_MODULE cfg) stack = Inr (slot, ch)"
    and "stack \<noteq> []"
    and "reconstruct cfg stack event arg st = (Inl e, st')"
  shows "\<exists>n. e = KeyError n"
proof -
  obtain frame callers where s: "stack = frame # callers"
    using assms(2) by (cases stack) auto
  show ?thesis
    using assms(3)
    by (auto simp: reconstruct_def assms(1) [unfolded s] s Let_def
        split: prod.splits sum.splits if_splits
        dest: display_new_chain_error display_missing_error display_frame_error)
qed

lemma reconstruct_slot:
  assumes "frame_window (PARENT_MODULE cfg) stack = Inr (slot, ch)"
    and "reconstruct cfg stack event arg st = (Inr u, st')"
  shows "FRAME_ENTRY_SLOT st' = slot \<or> FRAME_ENTRY_SLOT st' = FRAME_ENTRY_SLOT st"
proof -
  have p: "FRAME_ENTRY_SLOT (print_message m s) = FRAME_ENTRY_SLOT s" for m s
    by (simp add: print_message_def)
  have r: "FRAME_ENTRY_SLOT (display_frame_return cfg f a i s) = FRAME_ENTRY_SLOT s" for f a i s
    by (simp add: display_frame_return_def Let_def print_message_def)
  show ?thesis
    using assms(2)
    by (auto simp: reconstruct_def assms(1) Let_def p r
        split: prod.splits sum.splits if_splits list.splits
        dest!: display_new_chain_slot display_missing_slot display_frame_slot)
qed

section \<open>The frames of the window and the state of a displayed event\<close>

text \<open>
  The chain that the walk builds is the stack in reverse, each frame with its \<open>f_back\<close>;
  the window is cut from its end, so it holds the frames of the stack nearest the
  current frame, the root-most first.
\<close>

lemma walk_frames: "map fst (snd (walk pm fs s c)) = rev fs @ map fst c"
  by (induction fs arbitrary: s c) auto

lemma walk_links:
  "snd (walk pm fs s c) = rev (zip fs (map Some (tl fs) @ [None])) @ c"
proof (induction fs arbitrary: s c)
  case Nil
  then show ?case by simp
next
  case (Cons f fs)
  then show ?case by (cases fs) (simp_all add: f_back_of_def)
qed

lemma frame_window_frames:
  assumes "\<exists>f \<in> set stack. home_frame pm f"
  shows "\<exists>i < length stack. \<exists>ch.
           frame_window pm stack = Inr (int i, ch) \<and>
           map fst ch = rev (take (i + 6) stack) \<and>
           ch = rev (take (i + 6) (zip stack (map Some (tl stack) @ [None]))) \<and>
           home_frame pm (stack ! i) \<and>
           (\<forall>j. i < j \<and> j < length stack \<longrightarrow> \<not> home_frame pm (stack ! j))"
proof -
  from frame_window_found [OF assms] obtain i where
    i: "i < length stack"
       "frame_window pm stack =
          Inr (int i, drop (length stack - min (i + 6) (length stack)) (snd (walk pm stack None [])))"
       "home_frame pm (stack ! i)"
       "\<forall>j. i < j \<and> j < length stack \<longrightarrow> \<not> home_frame pm (stack ! j)"
    by blast
  let ?z = "zip stack (map Some (tl stack) @ [None])"
  let ?ch = "drop (length stack - min (i + 6) (length stack)) (snd (walk pm stack None []))"
  have lz: "length ?z = length stack"
    using i(1) by (cases stack) auto
  have "?ch = drop (length ?z - min (i + 6) (length ?z)) (rev ?z)"
    by (simp only: walk_links lz append_Nil2)
  also have "\<dots> = rev (take (min (i + 6) (length ?z)) ?z)"
    by (simp add: drop_rev)
  also have "\<dots> = rev (take (i + 6) ?z)"
    by (simp add: min_def)
  finally have c: "?ch = rev (take (i + 6) ?z)" .
  have "map fst (take (i + 6) ?z) = take (i + 6) (map fst ?z)"
    by (simp add: take_map)
  also have "map fst ?z = stack"
    using lz by (simp add: map_fst_zip_take)
  finally have m: "map fst (take (i + 6) ?z) = take (i + 6) stack" .
  have "map fst ?ch = rev (take (i + 6) stack)"
    by (simp only: c rev_map [symmetric] m)
  with i c show ?thesis by blast
qed

lemma display_frame_ok:
  "\<not> DISPLAY_FUNCTION_ARGLIST cfg \<Longrightarrow> \<exists>st'. display_frame cfg lf indent d st = (Inr (), st')"
  by (cases lf) (simp add: display_frame_def Let_def)

lemma display_new_chain_ok:
  "\<not> DISPLAY_FUNCTION_ARGLIST cfg \<Longrightarrow> \<exists>st'. display_new_chain cfg i indent fs st = (Inr (), st')"
proof (induction cfg i indent fs st rule: display_new_chain.induct)
  case (1 cfg i indent st)
  then show ?case by simp
next
  case (2 cfg i indent f fs st)
  let ?indent = "if i \<noteq> 0 then indent @ FRAME_INDENT_LITERAL else indent"
  from display_frame_ok [OF 2(2)] obtain st1 where
    d: "display_frame cfg f ?indent (i = FRAME_CALLER_FRAMES - 1) st = (Inr (), st1)"
    by blast
  from 2(1) [OF refl refl d [symmetric] refl 2(2)] d show ?case
    by (simp add: Let_def)
qed

lemma display_missing_ok:
  "\<not> DISPLAY_FUNCTION_ARGLIST cfg \<Longrightarrow> \<exists>st'. display_missing cfg indent fs st = (Inr (), st')"
proof (induction cfg indent fs st rule: display_missing.induct)
  case (1 cfg indent st)
  then show ?case by simp
next
  case (2 cfg indent f fs st)
  from display_frame_ok [OF 2(2)] obtain st1 where
    d: "display_frame cfg f indent False st = (Inr (), st1)"
    by blast
  from 2(1) [OF d [symmetric] refl 2(2)] d show ?case
    by simp
qed

text \<open>
  Without argument lists the renderer reads no local variable and cannot raise; the
  renderer never writes the entry slot, the entry location or the entry depth, so these
  are written by the reconstruction only, on a new chain.
\<close>

lemma display_frame_arglist:
  "display_frame cfg lf indent d st = (Inl e, st') \<Longrightarrow> DISPLAY_FUNCTION_ARGLIST cfg"
  using display_frame_ok [of cfg lf indent d st] by auto

lemma display_new_chain_arglist:
  "display_new_chain cfg i indent fs st = (Inl e, st') \<Longrightarrow> DISPLAY_FUNCTION_ARGLIST cfg"
  using display_new_chain_ok [of cfg i indent fs st] by auto

lemma display_missing_arglist:
  "display_missing cfg indent fs st = (Inl e, st') \<Longrightarrow> DISPLAY_FUNCTION_ARGLIST cfg"
  using display_missing_ok [of cfg indent fs st] by auto

lemma reconstruct_ok:
  assumes "frame_window (PARENT_MODULE cfg) stack = Inr (slot, ch)"
    and "stack \<noteq> []"
    and "\<not> DISPLAY_FUNCTION_ARGLIST cfg"
  shows "\<exists>st'. reconstruct cfg stack event arg st = (Inr (), st')"
proof -
  obtain frame callers where s: "stack = frame # callers"
    using assms(2) by (cases stack) auto
  obtain r st' where r: "reconstruct cfg stack event arg st = (r, st')"
    by (cases "reconstruct cfg stack event arg st") auto
  show ?thesis
  proof (cases r)
    case (Inl e)
    with r have "reconstruct cfg stack event arg st = (Inl e, st')" by simp
    then have "DISPLAY_FUNCTION_ARGLIST cfg"
      by (auto simp: reconstruct_def assms(1) [unfolded s] s Let_def
          split: prod.splits sum.splits if_splits
          dest: display_new_chain_arglist display_missing_arglist display_frame_arglist)
    with assms(3) show ?thesis by simp
  next
    case (Inr u)
    with r show ?thesis by simp
  qed
qed

lemma display_new_chain_fields:
  "display_new_chain cfg i indent fs st = (r, st') \<Longrightarrow>
     FRAME_ENTRY_SLOT st' = FRAME_ENTRY_SLOT st \<and>
     FRAME_ENTRY_LOCATION st' = FRAME_ENTRY_LOCATION st \<and>
     FRAME_ENTRY_DEPTH st' = FRAME_ENTRY_DEPTH st"
proof (induction cfg i indent fs st rule: display_new_chain.induct)
  case (1 cfg i indent st)
  then show ?case by simp
next
  case (2 cfg i indent f fs st)
  then show ?case
    by (auto simp: Let_def split: prod.splits sum.splits dest: display_frame_slot)
qed

lemma display_missing_fields:
  "display_missing cfg indent fs st = (r, st') \<Longrightarrow>
     FRAME_ENTRY_SLOT st' = FRAME_ENTRY_SLOT st \<and>
     FRAME_ENTRY_LOCATION st' = FRAME_ENTRY_LOCATION st \<and>
     FRAME_ENTRY_DEPTH st' = FRAME_ENTRY_DEPTH st"
proof (induction cfg indent fs st rule: display_missing.induct)
  case (1 cfg indent st)
  then show ?case by simp
next
  case (2 cfg indent f fs st)
  then show ?case
    by (auto split: prod.splits sum.splits dest: display_frame_slot)
qed

lemma reconstruct_new_chain:
  assumes "frame_window (PARENT_MODULE cfg) stack = Inr (slot, ch)"
    and "reconstruct cfg stack event arg st = (Inr u, st')"
    and "FRAME_ENTRY_LOCATION st = [] \<or>
         FRAME_ENTRY_LOCATION st \<noteq> map (\<lambda>(f, b). (co_filename f, f_lineno f)) (take 1 ch)"
  shows "FRAME_ENTRY_SLOT st' = slot \<and>
         FRAME_ENTRY_LOCATION st' = map (\<lambda>(f, b). (co_filename f, f_lineno f)) (take 1 ch) \<and>
         FRAME_ENTRY_DEPTH st' = int (length ch) - 1"
  using assms(2,3)
  by (auto simp: reconstruct_def assms(1) Let_def
      split: prod.splits sum.splits if_splits)

lemma reconstruct_continuation:
  assumes "frame_window (PARENT_MODULE cfg) stack = Inr (slot, ch)"
    and "reconstruct cfg stack event arg st = (Inr u, st')"
    and "FRAME_ENTRY_LOCATION st \<noteq> []"
    and "FRAME_ENTRY_LOCATION st = map (\<lambda>(f, b). (co_filename f, f_lineno f)) (take 1 ch)"
  shows "FRAME_ENTRY_SLOT st' = FRAME_ENTRY_SLOT st \<and>
         FRAME_ENTRY_LOCATION st' = FRAME_ENTRY_LOCATION st \<and>
         FRAME_ENTRY_DEPTH st' = FRAME_ENTRY_DEPTH st"
proof -
  have p: "FRAME_ENTRY_SLOT (print_message m s) = FRAME_ENTRY_SLOT s \<and>
           FRAME_ENTRY_LOCATION (print_message m s) = FRAME_ENTRY_LOCATION s \<and>
           FRAME_ENTRY_DEPTH (print_message m s) = FRAME_ENTRY_DEPTH s" for m s
    by (simp add: print_message_def)
  have r: "FRAME_ENTRY_SLOT (display_frame_return cfg f a i s) = FRAME_ENTRY_SLOT s \<and>
           FRAME_ENTRY_LOCATION (display_frame_return cfg f a i s) = FRAME_ENTRY_LOCATION s \<and>
           FRAME_ENTRY_DEPTH (display_frame_return cfg f a i s) = FRAME_ENTRY_DEPTH s" for f a i s
    by (simp add: display_frame_return_def Let_def print_message_def)
  show ?thesis
    using assms(2,3,4)
    by (auto simp: reconstruct_def assms(1) Let_def p r
        split: prod.splits sum.splits if_splits list.splits
        dest!: display_missing_fields display_frame_slot)
qed

section \<open>Claims about the scope filter\<close>

text \<open>
  C4. An event whose pair of relative module and function name is on the ignore list
  of its kind (the list of returns for a return, the list of debug calls for a call)
  renders nothing, whatever the trace flags are: \<open>trace_current_module\<close> returns without
  an exception and leaves the state, and with it the lines written, as they were.
\<close>

theorem ignore_listed_never_rendered:
  assumes "(get_relative_module (co_filename frame) modulelist_trace, co_name frame)
             \<in> set (ignore_list cfg event)"
  shows "\<exists>r. trace_current_module cfg (frame # callers) event arg st = (Inr r, st)"
proof -
  obtain relmodule caller_parent clf callee_parent cef where
    g: "get_relmodule_caller_callee (frame # callers) =
          (relmodule, (caller_parent, clf), (callee_parent, cef))"
    by (metis prod.exhaust)
  have r: "relmodule = get_relative_module (co_filename frame) modulelist_trace"
    using relmodule_of_stack [of frame callers] g by simp
  have i: "is_ignored cfg event relmodule (co_name frame) = Inr True"
    using assms r is_ignored_listed by simp
  show ?thesis
    by (simp add: trace_current_module_def scope_filter_def g i)
qed

theorem ignore_listed_never_rendered_witness:
  "(get_relative_module (co_filename (example_frame ''debug'' ''/src/SCons/Tool/MSCommon/common.py'' 293))
      modulelist_trace,
    co_name (example_frame ''debug'' ''/src/SCons/Tool/MSCommon/common.py'' 293))
     \<in> set (ignore_list cfg_allframes ''call'') \<and>
   (\<exists>r. trace_current_module cfg_allframes stack_debug ''call'' [] initial_state = (Inr r, initial_state))"
proof -
  let ?f = "example_frame ''debug'' ''/src/SCons/Tool/MSCommon/common.py'' 293"
  have h: "(get_relative_module (co_filename ?f) modulelist_trace, co_name ?f)
             \<in> set (ignore_list cfg_allframes ''call'')"
    by code_simp
  have s: "stack_debug = ?f # [example_frame ''find'' ''/src/SCons/Tool/MSCommon/vc.py'' 5]"
    by (simp add: stack_debug_def)
  from ignore_listed_never_rendered [OF h, of "[example_frame ''find'' ''/src/SCons/Tool/MSCommon/vc.py'' 5]" "[]" initial_state]
  show ?thesis using h s by simp
qed

text \<open>
  C1, as the claim states it, fails: with \<open>AllFramesOneBelow\<close> set, a call whose callee
  and caller are both outside the parent module, and whose pair is on no ignore list,
  is out of scope; nothing is rendered and the state is unchanged.
\<close>

theorem allframes_two_below_counterexample:
  "DISPLAY_ALLFRAMES_ONEBELOW cfg_allframes \<and>
   ''call'' \<in> set (FRAME_TRACE_EVENTS cfg_allframes) \<and>
   get_relmodule_caller_callee stack_two_below =
     (''lib/python3/posixpath'', (Some ''python3'', Some ''getpass''),
      (Some ''python3'', Some ''posixpath'')) \<and>
   (''lib/python3/posixpath'', ''join'') \<notin> set (ignore_list cfg_allframes ''call'') \<and>
   scope_filter cfg_allframes stack_two_below ''call'' = Inr OutOfScope \<and>
   trace_current_module cfg_allframes stack_two_below ''call'' [] initial_state =
     (Inr RVal, initial_state)"
  by code_simp

text \<open>
  C1, amended. With \<open>AllFramesOneBelow\<close> set, a traced event whose pair is on no ignore
  list is accepted exactly when the parent of the callee's module or the parent of the
  caller's module is the parent module: the flag lifts the allow list (and the check
  for generated frames), and the restriction to one level below the parent module stays.
\<close>

theorem allframes_bypasses_allow_list_only:
  assumes "DISPLAY_ALLFRAMES_ONEBELOW cfg"
    and "event \<in> set (FRAME_TRACE_EVENTS cfg)"
    and "get_relmodule_caller_callee (frame # callers) =
           (relmodule, (caller_parent, caller_leaf), (callee_parent, callee_leaf))"
    and "(relmodule, co_name frame) \<notin> set (ignore_list cfg event)"
  shows "scope_filter cfg (frame # callers) event =
           (if callee_parent = Some (PARENT_MODULE cfg) \<or> caller_parent = Some (PARENT_MODULE cfg)
            then Inr Accepted else Inr OutOfScope)"
proof -
  have i: "is_ignored cfg event relmodule (co_name frame) = Inr False"
    using assms(1,4) by (rule is_ignored_allframes)
  have a: "is_allowed cfg event relmodule (co_name frame)"
    using assms(1) by (simp add: is_allowed_def)
  show ?thesis
    using assms(2) by (simp add: scope_filter_def assms(3) i a)
qed

theorem allframes_bypasses_allow_list_only_witness:
  "DISPLAY_ALLFRAMES_ONEBELOW cfg_allframes \<and>
   ''call'' \<in> set (FRAME_TRACE_EVENTS cfg_allframes) \<and>
   (''lib/python3/getpass'', ''getpass'') \<notin> set (ignore_list cfg_allframes ''call'') \<and>
   \<not> is_allowed (cfg_allframes\<lparr>TRACEFLAGS := 7\<rparr>) ''call'' ''lib/python3/getpass'' ''getpass'' \<and>
   scope_filter cfg_allframes stack_one_below ''call'' = Inr Accepted"
proof -
  let ?f = "example_frame ''getpass'' ''/usr/lib/python3/getpass.py'' 10"
  let ?cs = "[example_frame ''find'' ''/src/SCons/Tool/MSCommon/vc.py'' 5]"
  have h1: "DISPLAY_ALLFRAMES_ONEBELOW cfg_allframes" by code_simp
  have h2: "''call'' \<in> set (FRAME_TRACE_EVENTS cfg_allframes)" by code_simp
  have h3: "get_relmodule_caller_callee (?f # ?cs) =
              (''lib/python3/getpass'', (Some ''MSCommon'', Some ''vc''),
               (Some ''python3'', Some ''getpass''))"
    by code_simp
  have h4: "(''lib/python3/getpass'', co_name ?f) \<notin> set (ignore_list cfg_allframes ''call'')"
    by code_simp
  have n: "co_name ?f = ''getpass''" by (simp add: example_frame_def)
  have p: "PARENT_MODULE cfg_allframes = ''MSCommon''" by (simp add: cfg_allframes_def)
  have a: "\<not> is_allowed (cfg_allframes\<lparr>TRACEFLAGS := 7\<rparr>) ''call'' ''lib/python3/getpass'' ''getpass''"
    by code_simp
  have s: "stack_one_below = ?f # ?cs" by (simp add: stack_one_below_def)
  from allframes_bypasses_allow_list_only [OF h1 h2 h3 h4]
  show ?thesis using h1 h2 h4 n p a s by simp
qed

section \<open>Claims about the chain reconstructor\<close>

lemma frame_window_length:
  assumes "\<exists>f \<in> set stack. home_frame pm f"
  shows "\<exists>i < length stack. \<exists>ch.
           frame_window pm stack = Inr (int i, ch) \<and>
           length ch = min (i + 6) (length stack) \<and>
           home_frame pm (stack ! i) \<and>
           (\<forall>j. i < j \<and> j < length stack \<longrightarrow> \<not> home_frame pm (stack ! j))"
proof -
  from frame_window_found [OF assms] obtain i where
    i: "i < length stack"
       "frame_window pm stack =
          Inr (int i, drop (length stack - min (i + 6) (length stack)) (snd (walk pm stack None [])))"
       "home_frame pm (stack ! i)"
       "\<forall>j. i < j \<and> j < length stack \<longrightarrow> \<not> home_frame pm (stack ! j)"
    by blast
  have "length (drop (length stack - min (i + 6) (length stack)) (snd (walk pm stack None []))) =
          min (i + 6) (length stack)"
    using walk_chain_length [of pm stack None "[]"] by simp
  with i show ?thesis by blast
qed

text \<open>
  C9. For every event that the scope filter accepts, the walk of the stack finds a
  frame whose file name contains the name of the parent module: the entry slot is a
  number, it is the position (counted from the current frame) of such a frame, the
  window is cut without a fault and is not empty, and the reconstruction does not
  raise the \<open>TypeError\<close> of an entry slot that is \<open>None\<close>.
\<close>

theorem accepted_event_has_entry_slot:
  assumes "scope_filter cfg stack event = Inr Accepted"
  shows "\<exists>entry_slot frame_chain.
           frame_window (PARENT_MODULE cfg) stack = Inr (entry_slot, frame_chain) \<and>
           0 \<le> entry_slot \<and> entry_slot < int (length stack) \<and>
           home_frame (PARENT_MODULE cfg) (stack ! nat entry_slot) \<and>
           frame_chain \<noteq> [] \<and>
           fst (reconstruct cfg stack event arg st) \<noteq> Inl TypeError"
proof -
  from frame_window_length [OF accepted_home [OF assms]] obtain i ch where
    i: "i < length stack"
       "frame_window (PARENT_MODULE cfg) stack = Inr (int i, ch)"
       "length ch = min (i + 6) (length stack)"
       "home_frame (PARENT_MODULE cfg) (stack ! i)"
    by blast
  from i(1) have ne: "stack \<noteq> []" by auto
  from i(1,3) have ch: "ch \<noteq> []" by auto
  have "fst (reconstruct cfg stack event arg st) \<noteq> Inl TypeError"
  proof
    assume "fst (reconstruct cfg stack event arg st) = Inl TypeError"
    then have "reconstruct cfg stack event arg st = (Inl TypeError, snd (reconstruct cfg stack event arg st))"
      by (metis prod.collapse)
    from reconstruct_error [OF i(2) ne this] show False by simp
  qed
  with i ch show ?thesis by auto
qed

theorem accepted_event_has_entry_slot_witness:
  "scope_filter cfg_allframes stack_one_below ''call'' = Inr Accepted \<and>
   (\<exists>entry_slot frame_chain.
      frame_window (PARENT_MODULE cfg_allframes) stack_one_below = Inr (entry_slot, frame_chain) \<and>
      0 \<le> entry_slot \<and> entry_slot < int (length stack_one_below) \<and>
      home_frame (PARENT_MODULE cfg_allframes) (stack_one_below ! nat entry_slot) \<and>
      frame_chain \<noteq> [] \<and>
      fst (reconstruct cfg_allframes stack_one_below ''call'' [] initial_state) \<noteq> Inl TypeError)"
proof -
  have h: "scope_filter cfg_allframes stack_one_below ''call'' = Inr Accepted"
    by code_simp
  from accepted_event_has_entry_slot [OF h, of "[]" initial_state] h
  show ?thesis by blast
qed

text \<open>
  C2, as the claim states it, fails: for the call of \<open>c\<close> in the nested stack, which
  is accepted, the outermost frame of the parent module is two frames above the current
  one, and the window has eight frames.
\<close>

theorem window_length_counterexample:
  "scope_filter cfg_allframes stack_nested ''call'' = Inr Accepted \<and>
   fst (projr (frame_window (PARENT_MODULE cfg_allframes) stack_nested)) = 2 \<and>
   length (snd (projr (frame_window (PARENT_MODULE cfg_allframes) stack_nested))) = 8 \<and>
   FRAME_LAST_CHAINLENGTH
     (snd (trace_current_module cfg_allframes stack_nested ''call'' [] initial_state)) = 8 \<and>
   \<not> (8 \<le> FRAME_CALLER_FRAMES + 1)"
  by code_simp

text \<open>
  C2, amended. For every accepted event the window holds the
  \<open>min (entry_slot + FRAME_CALLER_FRAMES + 1) (depth of the stack)\<close> frames of the live
  stack that are nearest the current frame, the root-most of them first and the current
  frame last, each with its \<open>f_back\<close>. Here \<open>entry_slot\<close> is the position, counted
  from the current frame, of the outermost frame whose file name contains the name of
  the parent module: no frame further from the current frame is of the parent module.
  So the window has at least one frame, and it has at most \<open>FRAME_CALLER_FRAMES + 1\<close>
  frames exactly when the entry slot is 0 or the stack has no more frames than that.
  Without argument lists the event is displayed without an error, and whenever it is
  displayed the length of the window is stored in \<open>FRAME_LAST_CHAINLENGTH\<close>.
\<close>

theorem window_length_bounds:
  assumes "scope_filter cfg stack event = Inr Accepted"
  shows "\<exists>i frame_chain.
           frame_window (PARENT_MODULE cfg) stack = Inr (int i, frame_chain) \<and>
           i < length stack \<and>
           home_frame (PARENT_MODULE cfg) (stack ! i) \<and>
           (\<forall>j. i < j \<and> j < length stack \<longrightarrow> \<not> home_frame (PARENT_MODULE cfg) (stack ! j)) \<and>
           map fst frame_chain = rev (take (i + nat FRAME_CALLER_FRAMES + 1) stack) \<and>
           frame_chain =
             rev (take (i + nat FRAME_CALLER_FRAMES + 1) (zip stack (map Some (tl stack) @ [None]))) \<and>
           1 \<le> length frame_chain \<and>
           int (length frame_chain) =
             min (int i + FRAME_CALLER_FRAMES + 1) (int (length stack)) \<and>
           (length frame_chain \<le> nat FRAME_CALLER_FRAMES + 1 \<longleftrightarrow>
              i = 0 \<or> length stack \<le> nat FRAME_CALLER_FRAMES + 1) \<and>
           (\<forall>arg st.
              (\<not> DISPLAY_FUNCTION_ARGLIST cfg \<longrightarrow>
                 (\<exists>st'. reconstruct cfg stack event arg st = (Inr (), st'))) \<and>
              (\<forall>u st'.
                 reconstruct cfg stack event arg st = (Inr u, st') \<longrightarrow>
                 FRAME_LAST_CHAINLENGTH st' = int (length frame_chain)))"
proof -
  from frame_window_frames [OF accepted_home [OF assms]] obtain i ch where
    i: "i < length stack"
       "frame_window (PARENT_MODULE cfg) stack = Inr (int i, ch)"
       "map fst ch = rev (take (i + 6) stack)"
       "ch = rev (take (i + 6) (zip stack (map Some (tl stack) @ [None])))"
       "home_frame (PARENT_MODULE cfg) (stack ! i)"
       "\<forall>j. i < j \<and> j < length stack \<longrightarrow> \<not> home_frame (PARENT_MODULE cfg) (stack ! j)"
    by blast
  from i(1) have ne: "stack \<noteq> []" by auto
  have n: "i + nat FRAME_CALLER_FRAMES + 1 = i + 6"
    by (simp add: FRAME_CALLER_FRAMES_def)
  have "length (map fst ch) = min (i + 6) (length stack)"
    by (simp only: i(3) length_rev length_take min.commute)
  then have len: "length ch = min (i + 6) (length stack)" by simp
  from len i(1) have l: "1 \<le> length ch" by auto
  from len have m: "int (length ch) = min (int i + FRAME_CALLER_FRAMES + 1) (int (length stack))"
    by (simp add: FRAME_CALLER_FRAMES_def min_def)
  from len have b: "length ch \<le> nat FRAME_CALLER_FRAMES + 1 \<longleftrightarrow>
      i = 0 \<or> length stack \<le> nat FRAME_CALLER_FRAMES + 1"
    by (auto simp: FRAME_CALLER_FRAMES_def min_def)
  have r: "\<forall>arg st.
      (\<not> DISPLAY_FUNCTION_ARGLIST cfg \<longrightarrow>
         (\<exists>st'. reconstruct cfg stack event arg st = (Inr (), st'))) \<and>
      (\<forall>u st'.
         reconstruct cfg stack event arg st = (Inr u, st') \<longrightarrow>
         FRAME_LAST_CHAINLENGTH st' = int (length ch))"
    using reconstruct_chainlength [OF i(2)] reconstruct_ok [OF i(2) ne] by blast
  from i(1,2,5,6) i(3,4) [folded n] l m b r show ?thesis by blast
qed

text \<open>
  The theorem at the call of \<open>c\<close> in the nested stack, without argument lists: the
  window is the stack without its root frame, eight frames from \<open>_exec\<close> to \<open>c\<close>.
\<close>

theorem window_length_bounds_witness:
  "scope_filter cfg_locations stack_nested ''call'' = Inr Accepted \<and>
   \<not> DISPLAY_FUNCTION_ARGLIST cfg_locations \<and>
   (\<exists>i frame_chain.
      frame_window (PARENT_MODULE cfg_locations) stack_nested = Inr (int i, frame_chain) \<and>
      i < length stack_nested \<and>
      home_frame (PARENT_MODULE cfg_locations) (stack_nested ! i) \<and>
      (\<forall>j. i < j \<and> j < length stack_nested \<longrightarrow>
           \<not> home_frame (PARENT_MODULE cfg_locations) (stack_nested ! j)) \<and>
      map fst frame_chain = rev (take (i + nat FRAME_CALLER_FRAMES + 1) stack_nested) \<and>
      frame_chain =
        rev (take (i + nat FRAME_CALLER_FRAMES + 1)
               (zip stack_nested (map Some (tl stack_nested) @ [None]))) \<and>
      1 \<le> length frame_chain \<and>
      int (length frame_chain) =
        min (int i + FRAME_CALLER_FRAMES + 1) (int (length stack_nested)) \<and>
      (length frame_chain \<le> nat FRAME_CALLER_FRAMES + 1 \<longleftrightarrow>
         i = 0 \<or> length stack_nested \<le> nat FRAME_CALLER_FRAMES + 1) \<and>
      (\<forall>arg st.
         (\<not> DISPLAY_FUNCTION_ARGLIST cfg_locations \<longrightarrow>
            (\<exists>st'. reconstruct cfg_locations stack_nested ''call'' arg st = (Inr (), st'))) \<and>
         (\<forall>u st'.
            reconstruct cfg_locations stack_nested ''call'' arg st = (Inr u, st') \<longrightarrow>
            FRAME_LAST_CHAINLENGTH st' = int (length frame_chain)))) \<and>
   map (co_name \<circ> fst)
     (snd (projr (frame_window (PARENT_MODULE cfg_locations) stack_nested))) =
     [''_exec'', ''<module>'', ''Environment'', ''Tool'', ''generate'', ''a'', ''b'', ''c''] \<and>
   fst (reconstruct cfg_locations stack_nested ''call'' [] initial_state) = Inr () \<and>
   FRAME_LAST_CHAINLENGTH
     (snd (reconstruct cfg_locations stack_nested ''call'' [] initial_state)) = 8"
proof -
  have h: "scope_filter cfg_locations stack_nested ''call'' = Inr Accepted"
    by code_simp
  have a: "\<not> DISPLAY_FUNCTION_ARGLIST cfg_locations"
    by code_simp
  have c: "map (co_name \<circ> fst)
      (snd (projr (frame_window (PARENT_MODULE cfg_locations) stack_nested))) =
      [''_exec'', ''<module>'', ''Environment'', ''Tool'', ''generate'', ''a'', ''b'', ''c'']"
    by code_simp
  have r: "fst (reconstruct cfg_locations stack_nested ''call'' [] initial_state) = Inr ()"
    by code_simp
  have l: "FRAME_LAST_CHAINLENGTH
      (snd (reconstruct cfg_locations stack_nested ''call'' [] initial_state)) = 8"
    by code_simp
  from window_length_bounds [OF h] h a c r l show ?thesis
    by (intro conjI)
qed

text \<open>
  C3, as the claim states it, fails: in the nested stack the innermost frame of the
  parent module is the current frame (position 0 from the current frame, position 7 of
  the window counted from its root), and the entry slot recorded for the accepted call
  is 2, the position of the outermost frame of the parent module, the call of \<open>a\<close>.
\<close>

theorem entry_slot_counterexample:
  "scope_filter cfg_allframes stack_nested ''call'' = Inr Accepted \<and>
   home_frame (PARENT_MODULE cfg_allframes) (stack_nested ! 0) \<and>
   home_frame (PARENT_MODULE cfg_allframes) (stack_nested ! 1) \<and>
   home_frame (PARENT_MODULE cfg_allframes) (stack_nested ! 2) \<and>
   co_name (stack_nested ! 2) = ''a'' \<and>
   fst (snd (projr (frame_window (PARENT_MODULE cfg_allframes) stack_nested)) ! 7) = stack_nested ! 0 \<and>
   fst (projr (frame_window (PARENT_MODULE cfg_allframes) stack_nested)) = 2 \<and>
   FRAME_ENTRY_SLOT
     (snd (trace_current_module cfg_allframes stack_nested ''call'' [] initial_state)) = 2"
  by code_simp

text \<open>
  C3, amended. For every accepted event the entry slot is the position, counted from
  the current frame, of the outermost frame whose file name contains the name of the
  parent module: no frame further from the current call is of the parent module.
  Without argument lists the event is displayed without an error. A displayed event
  that begins a chain (no entry location is stored, or the stored one is not the file
  and line of the root-most frame of the window) stores this slot in
  \<open>FRAME_ENTRY_SLOT\<close>, that file and line in \<open>FRAME_ENTRY_LOCATION\<close> and the length of
  the window less one in \<open>FRAME_ENTRY_DEPTH\<close>; a displayed event that continues the
  chain leaves all three as they were.
\<close>

theorem entry_slot_is_outermost_home_frame:
  assumes "scope_filter cfg stack event = Inr Accepted"
  shows "\<exists>i frame_chain.
           frame_window (PARENT_MODULE cfg) stack = Inr (int i, frame_chain) \<and>
           i < length stack \<and>
           home_frame (PARENT_MODULE cfg) (stack ! i) \<and>
           (\<forall>j. i < j \<and> j < length stack \<longrightarrow> \<not> home_frame (PARENT_MODULE cfg) (stack ! j)) \<and>
           map fst frame_chain = rev (take (i + nat FRAME_CALLER_FRAMES + 1) stack) \<and>
           (\<forall>arg st.
              (\<not> DISPLAY_FUNCTION_ARGLIST cfg \<longrightarrow>
                 (\<exists>st'. reconstruct cfg stack event arg st = (Inr (), st'))) \<and>
              (\<forall>u st'.
                 reconstruct cfg stack event arg st = (Inr u, st') \<longrightarrow>
                 (if FRAME_ENTRY_LOCATION st = [] \<or>
                     FRAME_ENTRY_LOCATION st \<noteq>
                       map (\<lambda>(f, b). (co_filename f, f_lineno f)) (take 1 frame_chain)
                  then FRAME_ENTRY_SLOT st' = int i \<and>
                       FRAME_ENTRY_LOCATION st' =
                         map (\<lambda>(f, b). (co_filename f, f_lineno f)) (take 1 frame_chain) \<and>
                       FRAME_ENTRY_DEPTH st' = int (length frame_chain) - 1
                  else FRAME_ENTRY_SLOT st' = FRAME_ENTRY_SLOT st \<and>
                       FRAME_ENTRY_LOCATION st' = FRAME_ENTRY_LOCATION st \<and>
                       FRAME_ENTRY_DEPTH st' = FRAME_ENTRY_DEPTH st)))"
proof -
  from frame_window_frames [OF accepted_home [OF assms]] obtain i ch where
    i: "i < length stack"
       "frame_window (PARENT_MODULE cfg) stack = Inr (int i, ch)"
       "map fst ch = rev (take (i + 6) stack)"
       "home_frame (PARENT_MODULE cfg) (stack ! i)"
       "\<forall>j. i < j \<and> j < length stack \<longrightarrow> \<not> home_frame (PARENT_MODULE cfg) (stack ! j)"
    by blast
  from i(1) have ne: "stack \<noteq> []" by auto
  have n: "i + nat FRAME_CALLER_FRAMES + 1 = i + 6"
    by (simp add: FRAME_CALLER_FRAMES_def)
  let ?loc = "map (\<lambda>(f, b). (co_filename f, f_lineno f)) (take 1 ch)"
  have r: "\<forall>arg st.
      (\<not> DISPLAY_FUNCTION_ARGLIST cfg \<longrightarrow>
         (\<exists>st'. reconstruct cfg stack event arg st = (Inr (), st'))) \<and>
      (\<forall>u st'.
         reconstruct cfg stack event arg st = (Inr u, st') \<longrightarrow>
         (if FRAME_ENTRY_LOCATION st = [] \<or> FRAME_ENTRY_LOCATION st \<noteq> ?loc
          then FRAME_ENTRY_SLOT st' = int i \<and> FRAME_ENTRY_LOCATION st' = ?loc \<and>
               FRAME_ENTRY_DEPTH st' = int (length ch) - 1
          else FRAME_ENTRY_SLOT st' = FRAME_ENTRY_SLOT st \<and>
               FRAME_ENTRY_LOCATION st' = FRAME_ENTRY_LOCATION st \<and>
               FRAME_ENTRY_DEPTH st' = FRAME_ENTRY_DEPTH st))"
  proof (intro allI conjI impI)
    fix arg st
    assume "\<not> DISPLAY_FUNCTION_ARGLIST cfg"
    then show "\<exists>st'. reconstruct cfg stack event arg st = (Inr (), st')"
      by (rule reconstruct_ok [OF i(2) ne])
  next
    fix arg st u st'
    assume e: "reconstruct cfg stack event arg st = (Inr u, st')"
    show "if FRAME_ENTRY_LOCATION st = [] \<or> FRAME_ENTRY_LOCATION st \<noteq> ?loc
          then FRAME_ENTRY_SLOT st' = int i \<and> FRAME_ENTRY_LOCATION st' = ?loc \<and>
               FRAME_ENTRY_DEPTH st' = int (length ch) - 1
          else FRAME_ENTRY_SLOT st' = FRAME_ENTRY_SLOT st \<and>
               FRAME_ENTRY_LOCATION st' = FRAME_ENTRY_LOCATION st \<and>
               FRAME_ENTRY_DEPTH st' = FRAME_ENTRY_DEPTH st"
    proof (cases "FRAME_ENTRY_LOCATION st = [] \<or> FRAME_ENTRY_LOCATION st \<noteq> ?loc")
      case True
      from reconstruct_new_chain [OF i(2) e True] True show ?thesis
        by (simp only: if_True)
    next
      case False
      then have "FRAME_ENTRY_LOCATION st \<noteq> []" "FRAME_ENTRY_LOCATION st = ?loc" by auto
      from reconstruct_continuation [OF i(2) e this] False show ?thesis
        by (simp only: if_False)
    qed
  qed
  from i(1,2,4,5) i(3) [folded n] r show ?thesis by blast
qed

text \<open>
  The theorem at the call of \<open>c\<close> in the nested stack, without argument lists. As the
  first event it begins a chain and stores the slot 2. After the call of \<open>b\<close>, which
  stores the slot 1 and the same entry location, it continues the chain, and the slot
  stays 1.
\<close>

theorem entry_slot_is_outermost_home_frame_witness:
  "scope_filter cfg_locations stack_nested ''call'' = Inr Accepted \<and>
   \<not> DISPLAY_FUNCTION_ARGLIST cfg_locations \<and>
   (\<exists>i frame_chain.
      frame_window (PARENT_MODULE cfg_locations) stack_nested = Inr (int i, frame_chain) \<and>
      i < length stack_nested \<and>
      home_frame (PARENT_MODULE cfg_locations) (stack_nested ! i) \<and>
      (\<forall>j. i < j \<and> j < length stack_nested \<longrightarrow>
           \<not> home_frame (PARENT_MODULE cfg_locations) (stack_nested ! j)) \<and>
      map fst frame_chain = rev (take (i + nat FRAME_CALLER_FRAMES + 1) stack_nested) \<and>
      (\<forall>arg st.
         (\<not> DISPLAY_FUNCTION_ARGLIST cfg_locations \<longrightarrow>
            (\<exists>st'. reconstruct cfg_locations stack_nested ''call'' arg st = (Inr (), st'))) \<and>
         (\<forall>u st'.
            reconstruct cfg_locations stack_nested ''call'' arg st = (Inr u, st') \<longrightarrow>
            (if FRAME_ENTRY_LOCATION st = [] \<or>
                FRAME_ENTRY_LOCATION st \<noteq>
                  map (\<lambda>(f, b). (co_filename f, f_lineno f)) (take 1 frame_chain)
             then FRAME_ENTRY_SLOT st' = int i \<and>
                  FRAME_ENTRY_LOCATION st' =
                    map (\<lambda>(f, b). (co_filename f, f_lineno f)) (take 1 frame_chain) \<and>
                  FRAME_ENTRY_DEPTH st' = int (length frame_chain) - 1
             else FRAME_ENTRY_SLOT st' = FRAME_ENTRY_SLOT st \<and>
                  FRAME_ENTRY_LOCATION st' = FRAME_ENTRY_LOCATION st \<and>
                  FRAME_ENTRY_DEPTH st' = FRAME_ENTRY_DEPTH st)))) \<and>
   fst (projr (frame_window (PARENT_MODULE cfg_locations) stack_nested)) = 2 \<and>
   fst (reconstruct cfg_locations stack_nested ''call'' [] initial_state) = Inr () \<and>
   FRAME_ENTRY_SLOT (snd (reconstruct cfg_locations stack_nested ''call'' [] initial_state)) = 2 \<and>
   FRAME_ENTRY_LOCATION (snd (reconstruct cfg_locations stack_nested ''call'' [] initial_state)) =
     [(''/src/SCons/Script/SConscript.py'', 7)] \<and>
   FRAME_ENTRY_SLOT
     (snd (reconstruct cfg_locations (tl stack_nested) ''call'' [] initial_state)) = 1 \<and>
   FRAME_ENTRY_LOCATION
     (snd (reconstruct cfg_locations (tl stack_nested) ''call'' [] initial_state)) =
     [(''/src/SCons/Script/SConscript.py'', 7)] \<and>
   fst (reconstruct cfg_locations stack_nested ''call'' []
          (snd (reconstruct cfg_locations (tl stack_nested) ''call'' [] initial_state))) = Inr () \<and>
   FRAME_ENTRY_SLOT
     (snd (reconstruct cfg_locations stack_nested ''call'' []
             (snd (reconstruct cfg_locations (tl stack_nested) ''call'' [] initial_state)))) = 1"
proof -
  have h: "scope_filter cfg_locations stack_nested ''call'' = Inr Accepted"
    by code_simp
  have a: "\<not> DISPLAY_FUNCTION_ARGLIST cfg_locations"
    by code_simp
  have c1: "fst (projr (frame_window (PARENT_MODULE cfg_locations) stack_nested)) = 2"
    by code_simp
  have c2: "fst (reconstruct cfg_locations stack_nested ''call'' [] initial_state) = Inr ()"
    by code_simp
  have c3: "FRAME_ENTRY_SLOT
      (snd (reconstruct cfg_locations stack_nested ''call'' [] initial_state)) = 2"
    by code_simp
  have c4: "FRAME_ENTRY_LOCATION
      (snd (reconstruct cfg_locations stack_nested ''call'' [] initial_state)) =
      [(''/src/SCons/Script/SConscript.py'', 7)]"
    by code_simp
  have c5: "FRAME_ENTRY_SLOT
      (snd (reconstruct cfg_locations (tl stack_nested) ''call'' [] initial_state)) = 1"
    by code_simp
  have c6: "FRAME_ENTRY_LOCATION
      (snd (reconstruct cfg_locations (tl stack_nested) ''call'' [] initial_state)) =
      [(''/src/SCons/Script/SConscript.py'', 7)]"
    by code_simp
  have c7: "fst (reconstruct cfg_locations stack_nested ''call'' []
      (snd (reconstruct cfg_locations (tl stack_nested) ''call'' [] initial_state))) = Inr ()"
    by code_simp
  have c8: "FRAME_ENTRY_SLOT
      (snd (reconstruct cfg_locations stack_nested ''call'' []
              (snd (reconstruct cfg_locations (tl stack_nested) ''call'' [] initial_state)))) = 1"
    by code_simp
  from entry_slot_is_outermost_home_frame [OF h] h a c1 c2 c3 c4 c5 c6 c7 c8 show ?thesis
    by (intro conjI)
qed

section \<open>Claims about the numbered log files\<close>

lemma sorted_last_Max:
  "sorted ys \<Longrightarrow> ys \<noteq> [] \<Longrightarrow> last ys = Max (set ys)"
proof (induction ys)
  case Nil
  then show ?case by simp
next
  case (Cons a ys)
  show ?case
  proof (cases "ys = []")
    case True
    then show ?thesis by simp
  next
    case False
    with Cons have l: "last ys = Max (set ys)" by simp
    from Cons.prems False have "a \<le> Max (set ys)"
      by (metis List.finite_set Max_in set_empty2 sorted_simps(2))
    with l False show ?thesis by (simp add: max_def)
  qed
qed

lemma last_sort_Max:
  assumes "xs \<noteq> []"
  shows "last (sort xs) = Max (set xs)"
proof -
  have "sort xs \<noteq> []" using assms by (metis length_sort length_0_conv)
  from sorted_last_Max [OF sorted_sort this] show ?thesis by simp
qed

lemma splitext_template:
  "splitext is_nt ''run-#.log'' = (''run-#'', ''.log'')"
proof (cases is_nt)
  case True
  have "splitext True ''run-#.log'' = (''run-#'', ''.log'')" by code_simp
  with True show ?thesis by simp
next
  case False
  have "splitext False ''run-#.log'' = (''run-#'', ''.log'')" by code_simp
  with False show ?thesis by simp
qed

lemma splitext_third:
  "splitext is_nt ''run-0003.log'' = (''run-0003'', ''.log'')"
proof (cases is_nt)
  case True
  have "splitext True ''run-0003.log'' = (''run-0003'', ''.log'')" by code_simp
  with True show ?thesis by simp
next
  case False
  have "splitext False ''run-0003.log'' = (''run-0003'', ''.log'')" by code_simp
  with False show ?thesis by simp
qed

lemma rewrite_template:
  assumes "sync \<longrightarrow> last_n = None"
  shows "rewrite_filename pf ''run-#.log'' sync last_n =
           (case get_next_serialnbr pf ''run-*.log'' of
              Inl e \<Rightarrow> (Inl e, last_n)
            | Inr n \<Rightarrow> (Inr (get_filename ''run-'' n ''.log''), if \<not> sync then Some n else last_n))"
proof -
  have c: "(if sync then last_n else None) = None" using assms by auto
  have d: "drop (length ''run-#'' - length FILENAME_SERIALNBR) ''run-#'' = FILENAME_SERIALNBR"
    by (simp add: FILENAME_SERIALNBR_def)
  have b: "butlast ''run-#'' = ''run-''" by simp
  have g: "''run-'' @ ''*'' @ ''.log'' = ''run-*.log''" by simp
  show ?thesis
    unfolding rewrite_filename_def splitext_template
    by (simp only: c d b g Let_def prod.case option.case list.simps if_False simp_thms)
qed

lemma next_serialnbr_two_files:
  assumes "set (glob pf ''run-*.log'') = {''run-0001.log'', ''run-0003.log''}"
  shows "get_next_serialnbr pf ''run-*.log'' = Inr 4"
proof -
  have ne: "glob pf ''run-*.log'' \<noteq> []"
  proof
    assume "glob pf ''run-*.log'' = []"
    then have "set (glob pf ''run-*.log'') = {}" by (simp only: set_simps)
    with assms show False by (metis insert_not_empty)
  qed
  have lt: "''run-0001.log'' < ''run-0003.log''" by (simp add: less_char_def)
  have "Max {''run-0001.log'', ''run-0003.log''} = max ''run-0001.log'' (Max {''run-0003.log''})"
    by (rule Max_insert) simp_all
  also have "\<dots> = max ''run-0001.log'' ''run-0003.log''"
    by (simp only: Max_singleton)
  also have "\<dots> = ''run-0003.log''"
    using lt by (rule max_absorb2 [OF less_imp_le])
  finally have m: "Max {''run-0001.log'', ''run-0003.log''} = ''run-0003.log''" .
  have "last (sort (glob pf ''run-*.log'')) = Max (set (glob pf ''run-*.log''))"
    by (rule last_sort_Max [OF ne])
  then have l: "last (sort (glob pf ''run-*.log'')) = ''run-0003.log''"
    by (simp only: assms m)
  have n: "py_int 10 (last (split_on (hd FILENAME_SERIALNBR) ''run-0003'')) = Some 3"
    by code_simp
  have "get_next_serialnbr pf ''run-*.log'' = Inr (3 + 1)"
    unfolding get_next_serialnbr_def
    by (simp only: ne l splitext_third n Let_def prod.case option.case if_False simp_thms)
  then show ?thesis by simp
qed

text \<open>
  C8. For the template \<open>run-#.log\<close>: when the files that match \<open>run-*.log\<close> in the target
  directory are \<open>run-0001.log\<close> and \<open>run-0003.log\<close>, the rewritten file name is
  \<open>run-0004.log\<close>; when no file matches, it is \<open>run-0001.log\<close>. This holds on both
  platforms, for a call that scans the directory (one without \<open>sync\<close>, or the first one).
\<close>

theorem rotation_next_filename:
  assumes "sync \<longrightarrow> last_n = None"
  shows "(set (glob pf ''run-*.log'') = {''run-0001.log'', ''run-0003.log''} \<longrightarrow>
            fst (rewrite_filename pf ''run-#.log'' sync last_n) = Inr ''run-0004.log'') \<and>
         (glob pf ''run-*.log'' = [] \<longrightarrow>
            fst (rewrite_filename pf ''run-#.log'' sync last_n) = Inr ''run-0001.log'')"
proof (intro conjI impI)
  assume a: "set (glob pf ''run-*.log'') = {''run-0001.log'', ''run-0003.log''}"
  have f4: "get_filename ''run-'' 4 ''.log'' = ''run-0004.log''" by code_simp
  have "get_next_serialnbr pf ''run-*.log'' = Inr 4"
    by (rule next_serialnbr_two_files [OF a])
  then have "fst (rewrite_filename pf ''run-#.log'' sync last_n) =
               Inr (get_filename ''run-'' 4 ''.log'')"
    by (simp only: rewrite_template [OF assms] sum.case fst_conv)
  then show "fst (rewrite_filename pf ''run-#.log'' sync last_n) = Inr ''run-0004.log''"
    by (simp only: f4)
next
  assume e: "glob pf ''run-*.log'' = []"
  have f1: "get_filename ''run-'' 1 ''.log'' = ''run-0001.log''" by code_simp
  have "get_next_serialnbr pf ''run-*.log'' = Inr 1"
    unfolding get_next_serialnbr_def by (simp only: e Let_def if_True simp_thms)
  then have "fst (rewrite_filename pf ''run-#.log'' sync last_n) =
               Inr (get_filename ''run-'' 1 ''.log'')"
    by (simp only: rewrite_template [OF assms] sum.case fst_conv)
  then show "fst (rewrite_filename pf ''run-#.log'' sync last_n) = Inr ''run-0001.log''"
    by (simp only: f1)
qed

theorem rotation_next_filename_witness:
  "set (glob (posix_directory [''run-0001.log'', ''build.log'', ''run-0003.log'', ''run-0002.txt''])
         ''run-*.log'') = {''run-0001.log'', ''run-0003.log''} \<and>
   fst (rewrite_filename
         (posix_directory [''run-0001.log'', ''build.log'', ''run-0003.log'', ''run-0002.txt''])
         ''run-#.log'' False None) = Inr ''run-0004.log'' \<and>
   glob (posix_directory [''build.log'']) ''run-*.log'' = [] \<and>
   fst (rewrite_filename (posix_directory [''build.log'']) ''run-#.log'' False None) =
     Inr ''run-0001.log''"
proof -
  let ?d = "posix_directory [''run-0001.log'', ''build.log'', ''run-0003.log'', ''run-0002.txt'']"
  let ?e = "posix_directory [''build.log'']"
  have g: "glob ?d ''run-*.log'' = [''run-0001.log'', ''run-0003.log'']" by code_simp
  have s: "set (glob ?d ''run-*.log'') = {''run-0001.log'', ''run-0003.log''}"
    by (simp only: g list.set)
  have n: "glob ?e ''run-*.log'' = []" by code_simp
  have h: "False \<longrightarrow> (None :: int option) = None" by (rule impI) (rule refl)
  have r1: "fst (rewrite_filename ?d ''run-#.log'' False None) = Inr ''run-0004.log''"
    by (rule rotation_next_filename [OF h, of ?d, THEN conjunct1, THEN mp, OF s])
  have r2: "fst (rewrite_filename ?e ''run-#.log'' False None) = Inr ''run-0001.log''"
    by (rule rotation_next_filename [OF h, of ?e, THEN conjunct2, THEN mp, OF n])
  from s r1 n r2 show ?thesis by (intro conjI)
qed

text \<open>
  C10. The shared number \<open>_last_n\<close> changes only in a call without \<open>sync\<close> on a marked
  template, which sets it to the number it has just scanned. A call with \<open>sync\<close> leaves
  it as it is: it uses the stored number when there is one, and otherwise scans, to
  the same file name as a call without \<open>sync\<close>, without storing the number. A call on
  a file name that is empty or not marked leaves it as it is and returns the file name.
\<close>

theorem last_n_written_only_without_sync:
  "(sync \<longrightarrow> snd (rewrite_filename pf filename sync last_n) = last_n) \<and>
   (\<not> marked (nt pf) filename \<longrightarrow>
      rewrite_filename pf filename sync last_n = (Inr filename, last_n)) \<and>
   (marked (nt pf) filename \<and> sync \<and> last_n = Some n \<longrightarrow>
      rewrite_filename pf filename sync last_n =
        (Inr (get_filename (butlast (fst (splitext (nt pf) filename))) n
                (snd (splitext (nt pf) filename))), Some n)) \<and>
   (marked (nt pf) filename \<and> sync \<and> last_n = None \<longrightarrow>
      rewrite_filename pf filename sync last_n =
        (fst (rewrite_filename pf filename False None), None)) \<and>
   (marked (nt pf) filename \<and> \<not> sync \<and>
    get_next_serialnbr pf
      (butlast (fst (splitext (nt pf) filename)) @ ''*'' @ snd (splitext (nt pf) filename)) = Inr m \<longrightarrow>
      rewrite_filename pf filename sync last_n =
        (Inr (get_filename (butlast (fst (splitext (nt pf) filename))) m
                (snd (splitext (nt pf) filename))), Some m)) \<and>
   (snd (rewrite_filename pf filename sync last_n) \<noteq> last_n \<longrightarrow>
      \<not> sync \<and> marked (nt pf) filename)"
  by (auto simp: rewrite_filename_def marked_def Let_def
      split: prod.splits sum.splits option.splits if_splits)

theorem last_n_written_only_without_sync_witness:
  "rewrite_filename (posix_directory [''run-0001.log'', ''run-0003.log'']) ''run-#.log'' False None =
     (Inr ''run-0004.log'', Some 4) \<and>
   rewrite_filename (posix_directory [''run-0001.log'', ''run-0003.log'']) ''trace-#.log'' True (Some 4) =
     (Inr ''trace-0004.log'', Some 4) \<and>
   rewrite_filename (posix_directory [''run-0001.log'', ''run-0003.log'']) ''run-#.log'' True None =
     (Inr ''run-0004.log'', None) \<and>
   rewrite_filename (posix_directory [''run-0001.log'', ''run-0003.log'']) ''run.log'' False (Some 4) =
     (Inr ''run.log'', Some 4) \<and>
   rewrite_filename (posix_directory [''run-0001.log'', ''run-0003.log'']) [] False (Some 4) =
     (Inr [], Some 4)"
proof -
  let ?d = "posix_directory [''run-0001.log'', ''run-0003.log'']"
  have m1: "marked (nt ?d) ''run-#.log''" by code_simp
  have m2: "marked (nt ?d) ''trace-#.log''" by code_simp
  have m3: "\<not> marked (nt ?d) ''run.log''" by code_simp
  have m4: "\<not> marked (nt ?d) []" by code_simp
  have s: "get_next_serialnbr ?d
             (butlast (fst (splitext (nt ?d) ''run-#.log'')) @ ''*'' @
              snd (splitext (nt ?d) ''run-#.log'')) = Inr 4"
    by code_simp
  have f1: "get_filename (butlast (fst (splitext (nt ?d) ''run-#.log''))) 4
              (snd (splitext (nt ?d) ''run-#.log'')) = ''run-0004.log''"
    by code_simp
  have f2: "get_filename (butlast (fst (splitext (nt ?d) ''trace-#.log''))) 4
              (snd (splitext (nt ?d) ''trace-#.log'')) = ''trace-0004.log''"
    by code_simp
  have a: "rewrite_filename ?d ''run-#.log'' False None = (Inr ''run-0004.log'', Some 4)"
    using last_n_written_only_without_sync [of False ?d "''run-#.log''" None 4 4] m1 s f1
    by simp
  have b: "rewrite_filename ?d ''trace-#.log'' True (Some 4) = (Inr ''trace-0004.log'', Some 4)"
    using last_n_written_only_without_sync [of True ?d "''trace-#.log''" "Some 4" 4 4] m2 f2
    by simp
  have c: "rewrite_filename ?d ''run-#.log'' True None = (Inr ''run-0004.log'', None)"
    using last_n_written_only_without_sync [of True ?d "''run-#.log''" None 4 4] m1 a
    by simp
  have d: "rewrite_filename ?d ''run.log'' False (Some 4) = (Inr ''run.log'', Some 4)"
    using last_n_written_only_without_sync [of False ?d "''run.log''" "Some 4" 4 4] m3
    by simp
  have e: "rewrite_filename ?d [] False (Some 4) = (Inr [], Some 4)"
    using last_n_written_only_without_sync [of False ?d "[]" "Some 4" 4 4] m4
    by simp
  from a b c d e show ?thesis by simp
qed

section \<open>Claims about the trace flags of the environment\<close>





text \<open>Every string that the loop over the outer quotes empties gives the default.\<close>

lemma strip_loop_default:
  assumes "strip_loop raw = None"
  shows "get_trace_display_traceflags py (Some raw) None = (Inr 7, Some 7)"
  using assms
  by (simp add: get_trace_display_traceflags_def TRACE_DISPLAY_DEFAULT_def
        TRACE_DISPLAY_FUNCTION_ARGLIST_def TRACE_DISPLAY_FUNCTION_LOCATION_def
        TRACE_DISPLAY_RETURN_VALUES_def)

text \<open>
  C5. For each of the strings \<open>15\<close>, \<open>0b1111\<close>, \<open>0xF\<close>, \<open>1+2+4+8\<close> and \<open>1|2|4|8\<close> in
  the environment variable, \<open>get_trace_display_traceflags\<close> returns 15 (and stores it
  in \<open>_TRACEFLAGS\<close>): the first three are integer literals of \<open>int(envstr, 0)\<close>, the
  last two are compiled and evaluated.
\<close>

theorem example_traceflags_resolve_to_15:
  "get_trace_display_traceflags python_fragment (Some ''15'') None = (Inr 15, Some 15) \<and>
   get_trace_display_traceflags python_fragment (Some ''0b1111'') None = (Inr 15, Some 15) \<and>
   get_trace_display_traceflags python_fragment (Some ''0xF'') None = (Inr 15, Some 15) \<and>
   get_trace_display_traceflags python_fragment (Some ''1+2+4+8'') None = (Inr 15, Some 15) \<and>
   get_trace_display_traceflags python_fragment (Some ''1|2|4|8'') None = (Inr 15, Some 15)"
  by (intro conjI; code_simp)




text \<open>
  C7. The loop over the outer quotes tests for the empty string only after it has
  stripped a pair of quotes, so the empty string leaves the loop as it is, is no
  integer literal and does not compile: \<open>get_trace_display_traceflags\<close> raises a
  \<open>ValueError\<close> for it and does not return the default. A pair of quotes with nothing
  between them does give the default, as does every string that the loop empties.
\<close>

theorem empty_traceflags_raises:
  "strip_loop [] = Some [] \<and>
   get_trace_display_traceflags python_fragment (Some []) None =
     (Inl (ValueError ''Trace display compilation failed: ''), None) \<and>
   get_trace_display_traceflags python_fragment (Some [double_quote, double_quote]) None =
     (Inr TRACE_DISPLAY_DEFAULT, Some TRACE_DISPLAY_DEFAULT)"
  by (intro conjI; code_simp)

end
